theory Spec2Isabelle
  imports Main "HOL-Library.Multiset" "HOL-Library.List_Lexorder"
begin

section \<open>JavaScript values, strings and exceptions\<close>

text \<open>
  A field of an event row is a string or \<open>null\<close>: \<open>string option\<close>, with \<open>None\<close> for
  \<open>null\<close>. Strings are byte strings (UTF-8). An exception is a value: a function of the
  source that can throw returns \<open>error + 'a\<close>, with \<open>Inl\<close> for the exception.
\<close>

datatype error = TypeError | RangeError

definition thenE :: "error + 'a \<Rightarrow> ('a \<Rightarrow> error + 'b) \<Rightarrow> error + 'b" where
  "thenE r f = (case r of Inl e \<Rightarrow> Inl e | Inr v \<Rightarrow> f v)"

text \<open>The letters \<open>A\<close> to \<open>Z\<close> are the code units 65 to 90, and the lower-case letter
  of each is 32 further.\<close>

definition toLowerCase_char :: "char \<Rightarrow> char" where
  "toLowerCase_char c =
     (let n = (of_char c :: int) in if 65 \<le> n \<and> n \<le> 90 then char_of (n + 32) else c)"

text \<open>
  \<open>String.prototype.toLowerCase\<close> on the letters of ASCII. This is the case mapping where
  the source looks the result up among ASCII words (\<open>getDisplayValue\<close>,
  \<open>isValidExternalWebsite\<close>): no character outside ASCII has a lower case made of the
  letters of those words, so only the mapping of \<open>A\<close> to \<open>Z\<close> decides there. It is also
  how a URL parser lowers a scheme and a host. Where the source orders or searches the
  lower-cased strings, the model takes the case mapping of the engine, \<open>lowerCase\<close> of
  the platform below.
\<close>

definition toLowerCase :: "string \<Rightarrow> string" where
  "toLowerCase s = map toLowerCase_char s"

text \<open>\<open>v || ''\<close>: the empty string for \<open>null\<close> (and for the empty string itself).\<close>

definition or_empty :: "string option \<Rightarrow> string" where
  "or_empty v = (case v of None \<Rightarrow> [] | Some s \<Rightarrow> s)"

text \<open>The white space of ASCII.\<close>

definition is_space :: "char \<Rightarrow> bool" where
  "is_space c = (c \<in> set [CHR 0x09, CHR 0x0A, CHR 0x0B, CHR 0x0C, CHR 0x0D, CHR '' ''])"

text \<open>\<open>String.prototype.trim\<close>.\<close>

definition trim :: "string \<Rightarrow> string" where
  "trim s = rev (dropWhile is_space (rev (dropWhile is_space s)))"

text \<open>\<open>String.prototype.includes\<close>: \<open>q\<close> occurs in \<open>s\<close> as a substring.\<close>

fun starts_with :: "string \<Rightarrow> string \<Rightarrow> bool" where
  "starts_with s [] = True"
| "starts_with [] (q # qs) = False"
| "starts_with (c # cs) (q # qs) = (c = q \<and> starts_with cs qs)"

fun includes_str :: "string \<Rightarrow> string \<Rightarrow> bool" where
  "includes_str [] q = (q = [])"
| "includes_str (c # cs) q = (starts_with (c # cs) q \<or> includes_str cs q)"

text \<open>The relational operators on two strings compare code units, lexicographically.\<close>

fun string_lt :: "string \<Rightarrow> string \<Rightarrow> bool" where
  "string_lt [] [] = False"
| "string_lt [] (b # v) = True"
| "string_lt (a # u) [] = False"
| "string_lt (a # u) (b # v) =
     (if a = b then string_lt u v else (of_char a :: int) < of_char b)"

section \<open>Event rows\<close>

record event =
  event_id :: string
  name :: "string option"
  sport :: "string option"
  start_date :: "string option"
  end_date :: "string option"
  location :: "string option"
  age :: "string option"
  gender :: "string option"
  event_type :: "string option"
  website :: "string option"

section \<open>Array.prototype.sort\<close>

text \<open>
  \<open>sort\<close> with a comparator is stable, and for a consistent comparator that does not
  throw its result is determined by the comparator alone: every engine returns the same
  array. Which pairs are compared, and which element of a pair is passed first, is the
  engine's choice; it shows when the comparator throws for some pairs, or is not
  consistent, and then the outcome for an array of more than two elements can differ
  from one engine to another. The model goes through the array from the left and moves
  each element down the part already sorted, from its end, passing the element that
  comes later in the array first, as V8 does: \<open>insert_by cmp x ys\<close> places \<open>x\<close> into
  \<open>ys\<close>, the part already sorted, held in reverse. An exception thrown by the
  comparator leaves the sort. An array of fewer than two elements is never compared.
\<close>

fun insert_by :: "('a \<Rightarrow> 'a \<Rightarrow> error + int) \<Rightarrow> 'a \<Rightarrow> 'a list \<Rightarrow> error + 'a list" where
  "insert_by cmp x [] = Inr [x]"
| "insert_by cmp x (y # ys) =
     thenE (cmp x y) (\<lambda>c.
       if c < 0 then thenE (insert_by cmp x ys) (\<lambda>zs. Inr (y # zs))
       else Inr (x # y # ys))"

fun sort_onto :: "('a \<Rightarrow> 'a \<Rightarrow> error + int) \<Rightarrow> 'a list \<Rightarrow> 'a list \<Rightarrow> error + 'a list" where
  "sort_onto cmp ys [] = Inr ys"
| "sort_onto cmp ys (x # xs) = thenE (insert_by cmp x ys) (\<lambda>zs. sort_onto cmp zs xs)"

definition sort_by :: "('a \<Rightarrow> 'a \<Rightarrow> error + int) \<Rightarrow> 'a list \<Rightarrow> error + 'a list" where
  "sort_by cmp xs = thenE (sort_onto cmp [] xs) (\<lambda>ys. Inr (rev ys))"

text \<open>The same sort for a comparator that cannot throw: the stable sort of a list by a
  three-way comparison.\<close>

fun stable_insert :: "('a \<Rightarrow> 'a \<Rightarrow> int) \<Rightarrow> 'a \<Rightarrow> 'a list \<Rightarrow> 'a list" where
  "stable_insert f x [] = [x]"
| "stable_insert f x (y # ys) = (if f x y < 0 then y # stable_insert f x ys else x # y # ys)"

definition stable_sort :: "('a \<Rightarrow> 'a \<Rightarrow> int) \<Rightarrow> 'a list \<Rightarrow> 'a list" where
  "stable_sort f xs = rev (foldl (\<lambda>ys x. stable_insert f x ys) [] xs)"

text \<open>A consistent comparator, as ECMAScript calls it: the result for \<open>b\<close> and \<open>a\<close> has
  the opposite sign of the result for \<open>a\<close> and \<open>b\<close>, and the order read off the sign is
  transitive.\<close>

definition consistent :: "('a \<Rightarrow> 'a \<Rightarrow> int) \<Rightarrow> bool" where
  "consistent f =
     ((\<forall>a b. (f a b < 0) = (0 < f b a)) \<and>
      (\<forall>a b c. (if f a b \<le> 0 \<and> f b c \<le> 0 then f a c \<le> 0 else True)))"

section \<open>Calendar dates\<close>

text \<open>A calendar date is (year, month 1..12, day of the month).\<close>

type_synonym civil = "int \<times> int \<times> int"

definition leap_year :: "int \<Rightarrow> bool" where
  "leap_year y = (y mod 400 = 0 \<or> (y mod 4 = 0 \<and> y mod 100 \<noteq> 0))"

definition days_in_month :: "int \<Rightarrow> int \<Rightarrow> int" where
  "days_in_month y m =
     (if m = 2 then (if leap_year y then 29 else 28)
      else if m \<in> set [4, 6, 9, 11] then 30 else 31)"

definition valid_civil :: "civil \<Rightarrow> bool" where
  "valid_civil c =
     (case c of (y, m, d) \<Rightarrow> 1 \<le> m \<and> m \<le> 12 \<and> 1 \<le> d \<and> d \<le> days_in_month y m)"

definition digit :: "char \<Rightarrow> int option" where
  "digit c =
     (let n = (of_char c :: int) in if 48 \<le> n \<and> n \<le> 57 then Some (n - 48) else None)"

fun digits_from :: "int \<Rightarrow> string \<Rightarrow> int option" where
  "digits_from acc [] = Some acc"
| "digits_from acc (c # cs) =
     (case digit c of None \<Rightarrow> None | Some d \<Rightarrow> digits_from (10 * acc + d) cs)"

text \<open>A non-empty run of decimal digits, as a number.\<close>

definition number :: "string \<Rightarrow> int option" where
  "number s = (if s = [] then None else digits_from 0 s)"

text \<open>The complete calendar date of ISO 8601, \<open>YYYY-MM-DD\<close>, naming a day that exists.\<close>

definition parse_date :: "string \<Rightarrow> civil option" where
  "parse_date s =
     (if length s = 10 \<and> s ! 4 = CHR ''-'' \<and> s ! 7 = CHR ''-'' then
        (case (number (take 4 s), number (take 2 (drop 5 s)), number (drop 8 s)) of
           (Some y, Some m, Some d) \<Rightarrow>
             if valid_civil (y, m, d) then Some (y, m, d) else None
         | _ \<Rightarrow> None)
      else None)"

text \<open>\<open>String.prototype.split\<close> at every character that satisfies \<open>P\<close>.\<close>

fun split_at :: "(char \<Rightarrow> bool) \<Rightarrow> string \<Rightarrow> string list" where
  "split_at P [] = [] # []"
| "split_at P (c # cs) =
     (if P c then [] # split_at P cs
      else (case split_at P cs of [] \<Rightarrow> [c] # [] | w # ws \<Rightarrow> (c # w) # ws))"

text \<open>
  A \<open>Date\<close> as date-fns reads and writes it, through its local fields: the local calendar
  date and the milliseconds since local midnight, or \<open>None\<close> for an Invalid Date.
\<close>

type_synonym datetime = "civil \<times> int"

text \<open>\<open>isSameDay\<close> of date-fns: both dates are valid and on the same local calendar day.\<close>

definition isSameDay :: "datetime option \<Rightarrow> datetime option \<Rightarrow> bool" where
  "isSameDay a b =
     (case (a, b) of (Some x, Some y) \<Rightarrow> fst x = fst y | _ \<Rightarrow> False)"

section \<open>Days, instants and the platform\<close>

definition next_day :: "civil \<Rightarrow> civil" where
  "next_day c =
     (case c of (y, m, d) \<Rightarrow>
        if d < days_in_month y m then (y, m, d + 1)
        else if m < 12 then (y, m + 1, 1) else (y + 1, 1, 1))"

definition prev_day :: "civil \<Rightarrow> civil" where
  "prev_day c =
     (case c of (y, m, d) \<Rightarrow>
        if 1 < d then (y, m, d - 1)
        else if 1 < m then (y, m - 1, days_in_month y (m - 1)) else (y - 1, 12, 31))"

text \<open>The day \<open>n\<close> days after \<open>c\<close> (before it, for a negative \<open>n\<close>).\<close>

definition shift_days :: "int \<Rightarrow> civil \<Rightarrow> civil" where
  "shift_days n c = (if 0 \<le> n then (next_day ^^ nat n) c else (prev_day ^^ nat (- n)) c)"

text \<open>The day number of ECMAScript: days since 1 January 1970 (\<open>DayFromYear\<close>, and the days
  of the months before), and \<open>WeekDay\<close>, 0 for Sunday.\<close>

definition DayFromYear :: "int \<Rightarrow> int" where
  "DayFromYear y = 365 * (y - 1970) + (y - 1969) div 4 - (y - 1901) div 100 + (y - 1601) div 400"

definition days_before_month :: "int \<Rightarrow> int \<Rightarrow> int" where
  "days_before_month y m = sum_list (map (days_in_month y) [1..m - 1])"

definition day_number :: "civil \<Rightarrow> int" where
  "day_number c = (case c of (y, m, d) \<Rightarrow> DayFromYear y + days_before_month y m + (d - 1))"

definition weekday :: "civil \<Rightarrow> int" where
  "weekday c = (day_number c + 4) mod 7"

definition msPerDay :: int where
  "msPerDay = 86400000"

text \<open>
  The time value of a \<open>Date\<close> object is an instant: its calendar date in UTC and the
  milliseconds since UTC midnight (the same pair as a local date and time, read in UTC), or
  \<open>None\<close> for \<open>NaN\<close>, the Invalid Date. \<open>getTime\<close> is the number two dates are compared by.
\<close>

definition getTime :: "datetime \<Rightarrow> int" where
  "getTime x = (case x of (c, t) \<Rightarrow> day_number c * msPerDay + t)"

definition add_ms :: "datetime \<Rightarrow> int \<Rightarrow> datetime" where
  "add_ms x k =
     (case x of (c, t) \<Rightarrow> (shift_days ((t + k) div msPerDay) c, (t + k) mod msPerDay))"

text \<open>\<open>a < b\<close> on two \<open>Date\<close> objects: false when either is invalid.\<close>

definition date_lt :: "datetime option \<Rightarrow> datetime option \<Rightarrow> bool" where
  "date_lt a b = (case (a, b) of (Some x, Some y) \<Rightarrow> getTime x < getTime y | _ \<Rightarrow> False)"

text \<open>The object \<open>generateICSContent\<close> hands to the \<open>ics\<close> library, and what the library
  returns: \<open>{error, value}\<close>. A date triple of an Invalid Date, three \<open>NaN\<close>s, is \<open>None\<close>;
  \<open>ics_allDay\<close> is the key \<open>allDay\<close> of the object, \<open>None\<close> for an object without it.\<close>

record ics_event =
  ics_title :: "string option"
  ics_description :: string
  ics_location :: string
  ics_start :: "civil option"
  ics_end :: "civil option"
  ics_status :: string
  ics_uid :: string
  ics_allDay :: "bool option"

record ics_result =
  ics_error :: "string option"
  ics_value :: "string option"

text \<open>
  What the source leaves to the JavaScript engine and to the libraries it runs on is a
  parameter of the model:
  \<^item> \<open>lowerCase\<close> is \<open>String.prototype.toLowerCase\<close>, the case mapping of Unicode;
  \<^item> \<open>localeCompare\<close> is \<open>String.prototype.localeCompare\<close>, whose collation the engine
    chooses;
  \<^item> \<open>parseISO_string\<close> is \<open>parseISO\<close> of date-fns on a string: the local date and time
    it reads, or \<open>None\<close> for the Invalid Date it returns for a string it cannot read (it
    does not throw);
  \<^item> \<open>legacyDateParse\<close> is what \<open>Date.parse\<close> makes of a string that is not a complete
    ISO calendar date (\<open>None\<close> when it makes nothing of it);
  \<^item> \<open>localTZA t isUTC\<close> is the offset of local time, in milliseconds, at the instant
    \<open>t\<close> (\<open>isUTC\<close>) or at the local time \<open>t\<close> (otherwise), as ECMAScript has it;
  \<^item> \<open>createEvent\<close> is the serializer of the \<open>ics\<close> library.
\<close>

record platform =
  lowerCase :: "string \<Rightarrow> string"
  localeCompare :: "string \<Rightarrow> string \<Rightarrow> int"
  parseISO_string :: "string \<Rightarrow> datetime option"
  legacyDateParse :: "string \<Rightarrow> datetime option"
  localTZA :: "datetime \<Rightarrow> bool \<Rightarrow> int"
  createEvent :: "ics_event \<Rightarrow> ics_result"

text \<open>A method call on a value that may be \<open>null\<close>: \<open>v.toLowerCase()\<close> throws a
  \<open>TypeError\<close> on \<open>null\<close>.\<close>

definition toLowerCase_of :: "platform \<Rightarrow> string option \<Rightarrow> error + string" where
  "toLowerCase_of p v = (case v of None \<Rightarrow> Inl TypeError | Some s \<Rightarrow> Inr (lowerCase p s))"

text \<open>\<open>parseISO(v)\<close> for a field of an event row: an argument that is not a string is an
  Invalid Date.\<close>

definition parseISO :: "platform \<Rightarrow> string option \<Rightarrow> datetime option" where
  "parseISO p v = (case v of None \<Rightarrow> None | Some s \<Rightarrow> parseISO_string p s)"

section \<open>Month view: DayCell\<close>

text \<open>What a cell shows: the event tiles, and the number of the \<open>+N more\<close> line when
  there is one.\<close>

record day_cell =
  tiles :: "event list"
  overflow :: "nat option"

text \<open>The comparator of the cell: \<open>a.name.toLowerCase().localeCompare(b.name.toLowerCase())\<close>.\<close>

definition compare_names_lower :: "platform \<Rightarrow> event \<Rightarrow> event \<Rightarrow> error + int" where
  "compare_names_lower p a b =
     thenE (toLowerCase_of p (name a)) (\<lambda>x.
     thenE (toLowerCase_of p (name b)) (\<lambda>y. Inr (localeCompare p x y)))"

text \<open>The tiles and the overflow line of a cell, from the events it is given:
  \<open>slice(0, 2)\<close>, and \<open>+{length - 2} more\<close> when \<open>length > 2\<close>.\<close>

definition render_cell :: "event list \<Rightarrow> day_cell" where
  "render_cell es =
     \<lparr>tiles = take 2 es, overflow = (if 2 < length es then Some (length es - 2) else None)\<rparr>"

text \<open>\<open>events.filter(event => isSameDay(parseISO(event.start_date), day))\<close>.\<close>

definition dayEvents :: "platform \<Rightarrow> datetime \<Rightarrow> event list \<Rightarrow> event list" where
  "dayEvents p day events =
     filter (\<lambda>event. isSameDay (parseISO p (start_date event)) (Some day)) events"

text \<open>The repository holds the component in two revisions. \<open>DayCell\<close> is the one with the
  sort (\<open>src/unnamed/part_002\<close>); \<open>DayCell_unsorted\<close> is the one at
  \<open>src/src/components/DayCell.js\<close>, which renders \<open>dayEvents\<close> as they are.\<close>

definition DayCell :: "platform \<Rightarrow> datetime \<Rightarrow> event list \<Rightarrow> error + day_cell" where
  "DayCell p day events =
     thenE (if 2 < length (dayEvents p day events)
            then sort_by (compare_names_lower p) (dayEvents p day events)
            else Inr (dayEvents p day events))
       (\<lambda>sortedDayEvents. Inr (render_cell sortedDayEvents))"

definition DayCell_unsorted :: "platform \<Rightarrow> datetime \<Rightarrow> event list \<Rightarrow> day_cell" where
  "DayCell_unsorted p day events = render_cell (dayEvents p day events)"

text \<open>Sorting alphabetically by case-insensitive name, as a three-way comparison of two
  events.\<close>

definition by_name_ci :: "platform \<Rightarrow> event \<Rightarrow> event \<Rightarrow> int" where
  "by_name_ci p a b =
     localeCompare p (lowerCase p (or_empty (name a))) (lowerCase p (or_empty (name b)))"

text \<open>An event with a name and a start date, and nothing else, for the examples; and one
  whose name is \<open>null\<close>.\<close>

definition named :: "string \<Rightarrow> string \<Rightarrow> string \<Rightarrow> event" where
  "named i n d =
     \<lparr>event_id = i, name = Some n, sport = None, start_date = Some d, end_date = Some d,
      location = None, age = None, gender = None, event_type = None, website = None\<rparr>"

definition unnamed :: "string \<Rightarrow> string \<Rightarrow> event" where
  "unnamed i d = (named i [] d)\<lparr>name := None\<rparr>"

section \<open>Display helpers\<close>

text \<open>\<open>getDisplayValue(value, defaultValue)\<close> of displayHelpers.js; the caller that gives
  no default gets \<open>N/A\<close>.\<close>

definition emptyValues :: "string list" where
  "emptyValues = [''null'', ''undefined'', ''none'', ''n/a'', ''na'', ''not available'']"

definition getDisplayValue :: "string option \<Rightarrow> string \<Rightarrow> string" where
  "getDisplayValue v defaultValue =
     (case v of
        None \<Rightarrow> defaultValue
      | Some s \<Rightarrow>
          if s = [] then defaultValue
          else (let stringValue = trim s
                in if toLowerCase stringValue \<in> set emptyValues then defaultValue
                   else stringValue))"

definition getDisplayClass :: "string option \<Rightarrow> string \<Rightarrow> string \<Rightarrow> string" where
  "getDisplayClass v defaultClass emptyClass =
     (if getDisplayValue v ''N/A'' = ''N/A'' then emptyClass else defaultClass)"

section \<open>Website validation\<close>

text \<open>
  What \<open>new URL(url)\<close> gives for an absolute URL, as far as the validation reads it: the
  protocol (the scheme in lower case, with its colon), the host name and the path. The
  parser is the standard one without its normalisations: no dot segments are removed,
  nothing is percent-encoded, and a host is a registered name or an IPv4 address. \<open>None\<close>
  is the \<open>TypeError\<close> of the constructor.
\<close>

record url =
  protocol :: string
  hostname :: string
  pathname :: string

definition is_alpha :: "char \<Rightarrow> bool" where
  "is_alpha c = (let n = (of_char c :: int) in (65 \<le> n \<and> n \<le> 90) \<or> (97 \<le> n \<and> n \<le> 122))"

definition is_digit :: "char \<Rightarrow> bool" where
  "is_digit c = (let n = (of_char c :: int) in 48 \<le> n \<and> n \<le> 57)"

definition is_scheme_char :: "char \<Rightarrow> bool" where
  "is_scheme_char c = (is_alpha c \<or> is_digit c \<or> c \<in> set ''+-.'')"

text \<open>The scheme of a URL and what follows its colon.\<close>

definition split_scheme :: "string \<Rightarrow> (string \<times> string) option" where
  "split_scheme s =
     (let sch = takeWhile (\<lambda>c. c \<noteq> CHR '':'') s;
          rest = dropWhile (\<lambda>c. c \<noteq> CHR '':'') s
      in case (sch, rest) of
           (a # u, colon # after) \<Rightarrow>
             if is_alpha a \<and> list_all is_scheme_char u then Some (toLowerCase (a # u), after)
             else None
         | _ \<Rightarrow> None)"

definition special_schemes :: "string list" where
  "special_schemes = [''http'', ''https'', ''ftp'', ''ws'', ''wss'']"

definition is_slash :: "char \<Rightarrow> bool" where
  "is_slash c = (c = CHR ''/'' \<or> c = CHR 0x5C)"

definition ends_authority :: "char \<Rightarrow> bool" where
  "ends_authority c = (is_slash c \<or> c = CHR ''?'' \<or> c = CHR ''#'')"

text \<open>The host name of an authority: after the last \<open>@\<close>, before the port.\<close>

definition host_of_authority :: "string \<Rightarrow> string option" where
  "host_of_authority a =
     (let hostport = last (split_at (\<lambda>c. c = CHR ''@'') a);
          host = takeWhile (\<lambda>c. c \<noteq> CHR '':'') hostport;
          port = drop 1 (dropWhile (\<lambda>c. c \<noteq> CHR '':'') hostport)
      in if host = [] \<or> \<not> list_all is_digit port then None else Some (toLowerCase host))"

definition path_of :: "string \<Rightarrow> string" where
  "path_of s = takeWhile (\<lambda>c. c \<noteq> CHR ''?'' \<and> c \<noteq> CHR ''#'') s"

definition parse_URL :: "string \<Rightarrow> url option" where
  "parse_URL s =
     (case split_scheme s of
        None \<Rightarrow> None
      | Some (sch, after) \<Rightarrow>
          if sch \<in> set special_schemes then
            (let r = dropWhile is_slash after;
                 authority = takeWhile (\<lambda>c. \<not> ends_authority c) r;
                 p = path_of (dropWhile (\<lambda>c. \<not> ends_authority c) r)
             in case host_of_authority authority of
                  None \<Rightarrow> None
                | Some h \<Rightarrow>
                    Some \<lparr>protocol = sch @ '':'', hostname = h,
                          pathname = (if p = [] then ''/''
                                      else map (\<lambda>c. if is_slash c then CHR ''/'' else c) p)\<rparr>)
          else if starts_with after ''//'' then
            (let r = drop 2 after;
                 authority = takeWhile (\<lambda>c. \<not> ends_authority c) r;
                 p = path_of (dropWhile (\<lambda>c. \<not> ends_authority c) r)
             in if authority = [] then Some \<lparr>protocol = sch @ '':'', hostname = [], pathname = p\<rparr>
                else (case host_of_authority authority of
                        None \<Rightarrow> None
                      | Some h \<Rightarrow> Some \<lparr>protocol = sch @ '':'', hostname = h, pathname = p\<rparr>))
          else Some \<lparr>protocol = sch @ '':'', hostname = [], pathname = path_of after\<rparr>)"

definition placeholderValues :: "string list" where
  "placeholderValues = [''n/a'', ''na'', ''not available'', ''none'', ''null'', ''undefined'']"

text \<open>The patterns of \<open>internalPatterns\<close>, each tested on the trimmed argument.\<close>

definition internal_pattern :: "string \<Rightarrow> bool" where
  "internal_pattern u =
     (u = ''/'' \<or> starts_with u ''/#'' \<or> starts_with u ''/?'' \<or> starts_with u ''javascript:''
      \<or> starts_with u ''mailto:'' \<or> starts_with u ''tel:'')"

definition isValidExternalWebsite :: "string option \<Rightarrow> bool" where
  "isValidExternalWebsite v =
     (case v of
        None \<Rightarrow> False
      | Some raw \<Rightarrow>
          if raw = [] then False
          else (let u = trim raw
                in if u = [] then False
                   else if toLowerCase u \<in> set placeholderValues then False
                   else (case parse_URL u of
                           None \<Rightarrow> False
                         | Some urlObj \<Rightarrow>
                             if protocol urlObj \<notin> set [''http:'', ''https:''] then False
                             else if hostname urlObj = [] then False
                             else if hostname urlObj = ''localhost''
                                     \<or> hostname urlObj = ''127.0.0.1''
                                     \<or> includes_str (hostname urlObj) ''localhost''
                                     \<or> pathname urlObj = ''/''
                                     \<or> pathname urlObj = [] then False
                             else if internal_pattern u then False
                             else True)))"

section \<open>The Date object\<close>

text \<open>
  \<open>new Date(v)\<close> for a field of an event row. \<open>null\<close> is the number 0, the epoch. A
  complete ISO calendar date is midnight of that day in UTC; every other string is left to
  the engine.
\<close>

definition new_Date :: "platform \<Rightarrow> string option \<Rightarrow> datetime option" where
  "new_Date p v =
     (case v of
        None \<Rightarrow> Some ((1970, 1, 1), 0)
      | Some s \<Rightarrow> (case parse_date s of Some c \<Rightarrow> Some (c, 0) | None \<Rightarrow> legacyDateParse p s))"

text \<open>\<open>LocalTime\<close> and \<open>UTC\<close> of ECMAScript.\<close>

definition LocalTime :: "platform \<Rightarrow> datetime \<Rightarrow> datetime" where
  "LocalTime p t = add_ms t (localTZA p t True)"

definition UTC :: "platform \<Rightarrow> datetime \<Rightarrow> datetime" where
  "UTC p t = add_ms t (- localTZA p t False)"

text \<open>\<open>[getFullYear(), getMonth() + 1, getDate()]\<close>: the local calendar date, and three
  \<open>NaN\<close>s for an Invalid Date.\<close>

definition local_triple :: "platform \<Rightarrow> datetime option \<Rightarrow> civil option" where
  "local_triple p d = (case d of None \<Rightarrow> None | Some t \<Rightarrow> Some (fst (LocalTime p t)))"

text \<open>\<open>MakeDay\<close>: day \<open>n\<close> of a month, counted on from its first day.\<close>

definition MakeDay :: "int \<Rightarrow> int \<Rightarrow> int \<Rightarrow> civil" where
  "MakeDay y m n = shift_days (n - 1) (y, m, 1)"

text \<open>\<open>d.setDate(d.getDate() + 1)\<close>: the next day of the local calendar at the same local
  time, as an instant again. An Invalid Date stays invalid.\<close>

definition setDate_next :: "platform \<Rightarrow> datetime option \<Rightarrow> datetime option" where
  "setDate_next p d =
     (case d of
        None \<Rightarrow> None
      | Some t \<Rightarrow>
          (case LocalTime p t of
             ((y, m, dd), tod) \<Rightarrow> Some (UTC p (MakeDay y m (dd + 1), tod))))"

section \<open>List view: the sort\<close>

text \<open>The last lines of the comparator: \<open>-1\<close>, \<open>1\<close> or \<open>0\<close> by \<open>aValue < bValue\<close>,
  \<open>aValue > bValue\<close> and the direction.\<close>

definition order_result :: "string \<Rightarrow> bool \<Rightarrow> bool \<Rightarrow> int" where
  "order_result sortDirection lt gt =
     (if lt then (if sortDirection = ''asc'' then - 1 else 1)
      else if gt then (if sortDirection = ''asc'' then 1 else - 1)
      else 0)"

text \<open>\<open>a.f.toLowerCase()\<close> against \<open>b.f.toLowerCase()\<close>.\<close>

definition compare_lower ::
    "platform \<Rightarrow> string \<Rightarrow> string option \<Rightarrow> string option \<Rightarrow> error + int" where
  "compare_lower p sortDirection x y =
     thenE (toLowerCase_of p x) (\<lambda>aValue.
     thenE (toLowerCase_of p y) (\<lambda>bValue.
       Inr (order_result sortDirection (string_lt aValue bValue) (string_lt bValue aValue))))"

definition compare_events ::
    "platform \<Rightarrow> string \<Rightarrow> string \<Rightarrow> event \<Rightarrow> event \<Rightarrow> error + int" where
  "compare_events p sortField sortDirection a b =
     (if sortField = ''startDateTime'' then
        Inr (order_result sortDirection
               (date_lt (new_Date p (start_date a)) (new_Date p (start_date b)))
               (date_lt (new_Date p (start_date b)) (new_Date p (start_date a))))
      else if sortField = ''name'' then compare_lower p sortDirection (name a) (name b)
      else if sortField = ''sport'' then compare_lower p sortDirection (sport a) (sport b)
      else if sortField = ''location'' then compare_lower p sortDirection (location a) (location b)
      else if sortField = ''age'' then compare_lower p sortDirection (age a) (age b)
      else if sortField = ''gender'' then compare_lower p sortDirection (gender a) (gender b)
      else if sortField = ''eventType'' then
        compare_lower p sortDirection (Some (or_empty (event_type a))) (Some (or_empty (event_type b)))
      else Inr 0)"

text \<open>\<open>[...events].sort(...)\<close> of ListView.\<close>

definition sortedEvents :: "platform \<Rightarrow> string \<Rightarrow> string \<Rightarrow> event list \<Rightarrow> error + event list" where
  "sortedEvents p sortField sortDirection events =
     sort_by (compare_events p sortField sortDirection) events"

section \<open>The filters of App.js\<close>

text \<open>A bound of the date range is \<open>null\<close> (\<open>None\<close>) or a \<open>Date\<close> object.\<close>

record date_range =
  range_start :: "datetime option option"
  range_end :: "datetime option option"

record filters =
  filter_sport :: string
  filter_location :: string
  filter_age :: string
  filter_gender :: string
  filter_eventType :: string
  dateRange :: date_range

text \<open>
  The callback of \<open>events.filter\<close> in \<open>applyFilters\<close>. Every method call of the callback
  is a call in the model, on the value the source calls it on: a name, a location and a
  sport that were first replaced by the empty string when \<open>null\<close>, and the texts of the
  search box and of the location filter, which are strings. \<open>new Date\<close> does not throw,
  and a comparison with an Invalid Date is false.

  The last part of the callback, the date range filter: whether it returns \<open>false\<close> for
  the row.
\<close>

definition outside_range :: "platform \<Rightarrow> date_range \<Rightarrow> event \<Rightarrow> bool" where
  "outside_range p bounds event =
     (if range_start bounds \<noteq> None \<or> range_end bounds \<noteq> None then
        (let eventDate = new_Date p (start_date event)
         in if (case range_start bounds of None \<Rightarrow> False | Some b \<Rightarrow> date_lt eventDate b)
            then True
            else if (case range_end bounds of None \<Rightarrow> False | Some b \<Rightarrow> date_lt b eventDate)
            then True
            else False)
      else False)"

text \<open>The callback: \<open>false\<close> where the source returns \<open>false\<close>, and \<open>true\<close> at its
  end.\<close>

definition passes :: "platform \<Rightarrow> string \<Rightarrow> filters \<Rightarrow> event \<Rightarrow> error + bool" where
  "passes p searchQuery f event =
     (let eventName = or_empty (name event);
          eventLocation = or_empty (location event)
      in thenE
           (if searchQuery \<noteq> [] then
              thenE (toLowerCase_of p (Some searchQuery)) (\<lambda>query.
              thenE (toLowerCase_of p (Some eventName)) (\<lambda>n.
                if includes_str n query then Inr False
                else thenE (toLowerCase_of p (Some eventLocation)) (\<lambda>l.
                  if includes_str l query then Inr False
                  else thenE (toLowerCase_of p (Some (or_empty (sport event)))) (\<lambda>s.
                    Inr (\<not> includes_str s query)))))
            else Inr False)
           (\<lambda>unmatched.
              if unmatched then Inr False
              else if filter_sport f \<noteq> [] \<and> sport event \<noteq> Some (filter_sport f) then Inr False
              else thenE
                     (if filter_location f \<noteq> [] then
                        thenE (toLowerCase_of p (Some eventLocation)) (\<lambda>l.
                        thenE (toLowerCase_of p (Some (filter_location f))) (\<lambda>wanted.
                          Inr (\<not> includes_str l wanted)))
                      else Inr False)
                     (\<lambda>elsewhere.
                        if elsewhere then Inr False
                        else if filter_age f \<noteq> [] \<and> age event \<noteq> Some (filter_age f)
                        then Inr False
                        else if filter_gender f \<noteq> [] \<and> gender event \<noteq> Some (filter_gender f)
                        then Inr False
                        else if filter_eventType f \<noteq> []
                                \<and> event_type event \<noteq> Some (filter_eventType f)
                        then Inr False
                        else Inr (\<not> outside_range p (dateRange f) event))))"

text \<open>\<open>Array.prototype.filter\<close> with a callback that can throw.\<close>

fun filterE :: "('a \<Rightarrow> error + bool) \<Rightarrow> 'a list \<Rightarrow> error + 'a list" where
  "filterE f [] = Inr []"
| "filterE f (x # xs) =
     thenE (f x) (\<lambda>b. thenE (filterE f xs) (\<lambda>ys. Inr (if b then x # ys else ys)))"

definition applyFilters ::
    "platform \<Rightarrow> event list \<Rightarrow> string \<Rightarrow> filters \<Rightarrow> error + event list" where
  "applyFilters p events searchQuery f = filterE (passes p searchQuery f) events"

text \<open>The filters as they start, and as \<open>clearAllFilters\<close> sets them.\<close>

definition no_filters :: filters where
  "no_filters =
     \<lparr>filter_sport = [], filter_location = [], filter_age = [], filter_gender = [],
      filter_eventType = [], dateRange = \<lparr>range_start = None, range_end = None\<rparr>\<rparr>"

section \<open>Week view\<close>

text \<open>\<open>String(v)\<close>, as an argument that must be a string is converted.\<close>

definition String_of :: "string option \<Rightarrow> string" where
  "String_of v = (case v of None \<Rightarrow> ''null'' | Some s \<Rightarrow> s)"

text \<open>The comparator of \<open>getEventsForDate\<close>: \<open>a.name.localeCompare(b.name)\<close>.\<close>

definition compare_names :: "platform \<Rightarrow> event \<Rightarrow> event \<Rightarrow> error + int" where
  "compare_names p a b =
     (case name a of
        None \<Rightarrow> Inl TypeError
      | Some x \<Rightarrow> Inr (localeCompare p x (String_of (name b))))"

definition getEventsForDate :: "platform \<Rightarrow> event list \<Rightarrow> datetime \<Rightarrow> error + event list" where
  "getEventsForDate p events date = sort_by (compare_names p) (dayEvents p date events)"

text \<open>\<open>addDays\<close> and \<open>startOfWeek\<close> of date-fns (weeks start on Sunday): the local date
  moves, and \<open>startOfWeek\<close> sets the time to midnight.\<close>

definition addDays :: "datetime \<Rightarrow> int \<Rightarrow> datetime" where
  "addDays d n = (shift_days n (fst d), snd d)"

definition startOfWeek :: "datetime \<Rightarrow> datetime" where
  "startOfWeek d = (shift_days (- weekday (fst d)) (fst d), 0)"

fun mapE :: "('a \<Rightarrow> error + 'b) \<Rightarrow> 'a list \<Rightarrow> error + 'b list" where
  "mapE f [] = Inr []"
| "mapE f (x # xs) = thenE (f x) (\<lambda>y. thenE (mapE f xs) (\<lambda>ys. Inr (y # ys)))"

text \<open>One column of the week: the day, and its tiles and overflow line.\<close>

definition week_column :: "platform \<Rightarrow> event list \<Rightarrow> datetime \<Rightarrow> error + datetime \<times> day_cell" where
  "week_column p events day =
     thenE (getEventsForDate p events day) (\<lambda>es. Inr (day, render_cell es))"

text \<open>\<open>renderWeekView\<close>: the loop \<open>for (let i = 0; i < 7; i++)\<close> over the days from
  \<open>startOfWeek(currentDate)\<close>.\<close>

definition renderWeekView ::
    "platform \<Rightarrow> event list \<Rightarrow> datetime \<Rightarrow> error + (datetime \<times> day_cell) list" where
  "renderWeekView p events currentDate =
     mapE (\<lambda>i. week_column p events (addDays (startOfWeek currentDate) i)) [0, 1, 2, 3, 4, 5, 6]"

text \<open>Sorting by name as the week view compares names: as they are.\<close>

definition by_name :: "platform \<Rightarrow> event \<Rightarrow> event \<Rightarrow> int" where
  "by_name p a b = localeCompare p (String_of (name a)) (String_of (name b))"

text \<open>Events of one week of March 2024, for the examples: three on Wednesday the 13th,
  whose names differ in case only.\<close>

definition week_events :: "event list" where
  "week_events =
     [named ''1'' ''Alpha'' ''2024-03-13'', named ''2'' ''alpha'' ''2024-03-13'',
      named ''3'' ''Alpha'' ''2024-03-13'', named ''4'' ''Zeta'' ''2024-03-10'',
      named ''5'' ''Mid'' ''2024-03-17'']"

section \<open>Date formatting\<close>

definition digit_char :: "int \<Rightarrow> char" where
  "digit_char n = char_of (48 + n)"

text \<open>The decimal digits of a number that is not negative.\<close>

function decimal :: "int \<Rightarrow> string" where
  "decimal n = (if n < 10 then [digit_char n] else decimal (n div 10) @ [digit_char (n mod 10)])"
  by pat_completeness auto
termination
  by (relation "measure nat") auto

text \<open>\<open>addLeadingZeros\<close>.\<close>

definition pad_zeros :: "nat \<Rightarrow> string \<Rightarrow> string" where
  "pad_zeros w s = replicate (w - length s) CHR ''0'' @ s"

definition weekday_names :: "string list" where
  "weekday_names =
     [''Sunday'', ''Monday'', ''Tuesday'', ''Wednesday'', ''Thursday'', ''Friday'', ''Saturday'']"

definition month_names :: "string list" where
  "month_names =
     [''Jan'', ''Feb'', ''Mar'', ''Apr'', ''May'', ''Jun'',
      ''Jul'', ''Aug'', ''Sep'', ''Oct'', ''Nov'', ''Dec'']"

text \<open>The fields of a date as the format tokens \<open>EEEE\<close>, \<open>EEE\<close>, \<open>MMM\<close>, \<open>d\<close> and
  \<open>yyyy\<close> print them (in English, the locale of the library).\<close>

definition weekday_long :: "civil \<Rightarrow> string" where
  "weekday_long c = weekday_names ! nat (weekday c)"

definition weekday_short :: "civil \<Rightarrow> string" where
  "weekday_short c = take 3 (weekday_long c)"

definition month_short :: "civil \<Rightarrow> string" where
  "month_short c = (case c of (y, m, d) \<Rightarrow> month_names ! nat (m - 1))"

definition day_of_month :: "civil \<Rightarrow> string" where
  "day_of_month c = (case c of (y, m, d) \<Rightarrow> decimal d)"

definition year_4 :: "civil \<Rightarrow> string" where
  "year_4 c = (case c of (y, m, d) \<Rightarrow> pad_zeros 4 (decimal (if 0 < y then y else 1 - y)))"

text \<open>A format string, cut into its runs of one repeated character: the tokens, and the
  characters between them.\<close>

fun runs :: "string \<Rightarrow> string list" where
  "runs [] = []"
| "runs (c # cs) =
     (case runs cs of
        [] \<Rightarrow> [c] # []
      | r # rs \<Rightarrow> if starts_with r [c] then (c # r) # rs else [c] # r # rs)"

definition format_token :: "civil \<Rightarrow> string \<Rightarrow> error + string" where
  "format_token c tok =
     (if tok = ''EEEE'' then Inr (weekday_long c)
      else if tok = ''EEE'' then Inr (weekday_short c)
      else if tok = ''MMM'' then Inr (month_short c)
      else if tok = ''d'' then Inr (day_of_month c)
      else if tok = ''yyyy'' then Inr (year_4 c)
      else if list_ex is_alpha tok then Inl RangeError
      else Inr tok)"

text \<open>
  \<open>format\<close> of date-fns-tz, for format strings of those five tokens and of characters
  that are not letters, with a \<open>timeZone\<close> option: the option changes what the time-zone
  tokens print, and there is none among the five, so the date is printed by its local
  fields. An Invalid Date is a \<open>RangeError\<close>.
\<close>

definition formatTz :: "datetime option \<Rightarrow> string \<Rightarrow> string \<Rightarrow> error + string" where
  "formatTz d pattern timeZone =
     (case d of
        None \<Rightarrow> Inl RangeError
      | Some dt \<Rightarrow> thenE (mapE (format_token (fst dt)) (runs pattern)) (\<lambda>parts. Inr (concat parts)))"

text \<open>The en dash, in UTF-8.\<close>

definition en_dash :: string where
  "en_dash = [CHR 0xE2, CHR 0x80, CHR 0x93]"

text \<open>\<open>parseISO(`${date}T00:00:00`)\<close>.\<close>

definition midnight_of :: "platform \<Rightarrow> string \<Rightarrow> datetime option" where
  "midnight_of p date = parseISO_string p (date @ ''T00:00:00'')"

text \<open>\<open>formatEventDateDisplay\<close> of timezone.js: the body of its \<open>try\<close>, and the function
  with its \<open>catch\<close>, which returns \<open>startDate\<close>. \<open>!endDate\<close> holds for \<open>null\<close> and for the
  empty string.\<close>

definition formatEventDateDisplay_try ::
    "platform \<Rightarrow> string \<Rightarrow> string option \<Rightarrow> string \<Rightarrow> error + string" where
  "formatEventDateDisplay_try p startDate endDate timezone =
     (let startDateObj = midnight_of p startDate
      in if or_empty endDate = [] \<or> isSameDay startDateObj (midnight_of p (or_empty endDate))
         then formatTz startDateObj ''EEEE, MMM d, yyyy'' timezone
         else (let endDateObj = midnight_of p (or_empty endDate)
               in thenE (formatTz startDateObj ''EEE, MMM d'' timezone) (\<lambda>startFormatted.
                  thenE (formatTz endDateObj ''EEE, MMM d, yyyy'' timezone) (\<lambda>endFormatted.
                    Inr (startFormatted @ '' '' @ en_dash @ '' '' @ endFormatted)))))"

definition formatEventDateDisplay ::
    "platform \<Rightarrow> string \<Rightarrow> string option \<Rightarrow> string \<Rightarrow> string" where
  "formatEventDateDisplay p startDate endDate timezone =
     (case formatEventDateDisplay_try p startDate endDate timezone of
        Inl error \<Rightarrow> startDate
      | Inr s \<Rightarrow> s)"

section \<open>Export: the calendar link\<close>

text \<open>\<open>s.replace(/-/g, '')\<close>.\<close>

definition remove_dashes :: "string \<Rightarrow> string" where
  "remove_dashes s = filter (\<lambda>c. c \<noteq> CHR ''-'') s"

definition two_digits :: "int \<Rightarrow> string" where
  "two_digits n = pad_zeros 2 (decimal n)"

text \<open>The year of \<open>toISOString\<close>: four digits, or a sign and six digits outside 0..9999.\<close>

definition iso_year :: "int \<Rightarrow> string" where
  "iso_year y =
     (if 0 \<le> y \<and> y \<le> 9999 then pad_zeros 4 (decimal y)
      else (if y < 0 then ''-'' else ''+'') @ pad_zeros 6 (decimal (abs y)))"

text \<open>\<open>Date.prototype.toISOString\<close>: the instant in UTC; a \<open>RangeError\<close> on an Invalid
  Date.\<close>

definition toISOString :: "datetime option \<Rightarrow> error + string" where
  "toISOString d =
     (case d of
        None \<Rightarrow> Inl RangeError
      | Some ((y, m, dd), t) \<Rightarrow>
          Inr (iso_year y @ ''-'' @ two_digits m @ ''-'' @ two_digits dd @ ''T''
               @ two_digits (t div 3600000) @ '':'' @ two_digits (t div 60000 mod 60) @ '':''
               @ two_digits (t div 1000 mod 60) @ ''.'' @ pad_zeros 3 (decimal (t mod 1000))
               @ ''Z''))"

text \<open>\<open>v || 'N/A'\<close>.\<close>

definition or_NA :: "string option \<Rightarrow> string" where
  "or_NA v = (if or_empty v = [] then ''N/A'' else or_empty v)"

text \<open>The description of an event, in the link and in the calendar file. The source
  writes \<open>\\n\<close> in a template literal: a backslash and the letter n, not a line break.\<close>

definition backslash_n :: string where
  "backslash_n = [CHR 0x5C, CHR ''n'']"

definition describe :: "event \<Rightarrow> string" where
  "describe event =
     ''Sport: '' @ or_NA (sport event) @ backslash_n
     @ ''Age Group: '' @ or_NA (age event) @ backslash_n
     @ ''Gender: '' @ or_NA (gender event) @ backslash_n
     @ ''Event Type: '' @ or_NA (event_type event)"

text \<open>\<open>URLSearchParams.prototype.toString\<close>: the pairs in the order given, each name and
  value percent-encoded byte by byte as a form.\<close>

definition hex_digit :: "int \<Rightarrow> char" where
  "hex_digit n = ''0123456789ABCDEF'' ! nat n"

definition form_encode_char :: "char \<Rightarrow> string" where
  "form_encode_char c =
     (if is_alpha c \<or> is_digit c \<or> c \<in> set ''*-._'' then [c]
      else if c = CHR '' '' then ''+''
      else [CHR ''%'', hex_digit (of_char c div 16), hex_digit (of_char c mod 16)])"

definition form_encode :: "string \<Rightarrow> string" where
  "form_encode s = concat (map form_encode_char s)"

fun join_with :: "string \<Rightarrow> string list \<Rightarrow> string" where
  "join_with sep [] = []"
| "join_with sep [x] = x"
| "join_with sep (x # y # ys) = x @ sep @ join_with sep (y # ys)"

definition URLSearchParams :: "(string \<times> string) list \<Rightarrow> string" where
  "URLSearchParams ps =
     join_with ''&'' (map (\<lambda>(k, v). form_encode k @ ''='' @ form_encode v) ps)"

text \<open>The parameters of the link, from the two date strings the function has computed.\<close>

definition calendar_params :: "event \<Rightarrow> string \<Rightarrow> string \<Rightarrow> (string \<times> string) list" where
  "calendar_params event startDate endDate =
     [(''action'', ''TEMPLATE''),
      (''text'', String_of (name event)),
      (''dates'', startDate @ ''/'' @ endDate),
      (''details'', describe event),
      (''location'', or_empty (location event)),
      (''sprop'', ''website:youth-sports-calendar'')]"

text \<open>The two date strings: \<open>start_date\<close> without its dashes (a \<open>TypeError\<close> on
  \<open>null\<close>), and the first ten characters of \<open>toISOString\<close> of the end date moved on by
  \<open>setDate(getDate() + 1)\<close>, without their dashes.\<close>

definition link_dates :: "platform \<Rightarrow> event \<Rightarrow> error + string \<times> string" where
  "link_dates p event =
     thenE (case start_date event of None \<Rightarrow> Inl TypeError | Some s \<Rightarrow> Inr (remove_dashes s))
       (\<lambda>startDate.
          thenE (toISOString (setDate_next p (new_Date p (end_date event))))
            (\<lambda>iso. Inr (startDate, remove_dashes (take 10 iso))))"

text \<open>\<open>generateGoogleCalendarUrl\<close>: the body of its \<open>try\<close>, and the function with its
  \<open>catch\<close>, which returns \<open>#\<close>.\<close>

definition generateGoogleCalendarUrl_try :: "platform \<Rightarrow> event \<Rightarrow> error + string" where
  "generateGoogleCalendarUrl_try p event =
     thenE (link_dates p event) (\<lambda>(startDate, endDate).
       Inr (''https://calendar.google.com/calendar/render?''
            @ URLSearchParams (calendar_params event startDate endDate)))"

definition generateGoogleCalendarUrl :: "platform \<Rightarrow> event \<Rightarrow> string" where
  "generateGoogleCalendarUrl p event =
     (case generateGoogleCalendarUrl_try p event of Inl error \<Rightarrow> ''#'' | Inr u \<Rightarrow> u)"

section \<open>Export: the calendar file of one event\<close>

text \<open>The object of \<open>generateICSContent\<close>: the start and end triples are read with the
  local accessors, the end after \<open>setDate(getDate() + 1)\<close>.\<close>

definition icsEvent :: "platform \<Rightarrow> event \<Rightarrow> ics_event" where
  "icsEvent p event =
     \<lparr>ics_title = name event,
      ics_description = describe event,
      ics_location = or_empty (location event),
      ics_start = local_triple p (new_Date p (start_date event)),
      ics_end = local_triple p (setDate_next p (new_Date p (end_date event))),
      ics_status = ''CONFIRMED'',
      ics_uid = event_id event,
      ics_allDay = Some True\<rparr>"

text \<open>\<open>generateICSContent\<close>: nothing before the call of the library throws, and the
  library returns its failure in the result.\<close>

definition generateICSContent :: "platform \<Rightarrow> event \<Rightarrow> ics_result" where
  "generateICSContent p event = createEvent p (icsEvent p event)"

text \<open>An event with a name and the two dates, for the examples.\<close>

definition spanning :: "string \<Rightarrow> string \<Rightarrow> string \<Rightarrow> string \<Rightarrow> event" where
  "spanning i n d e = (named i n d)\<lparr>end_date := Some e\<rparr>"

section \<open>Export: the calendar file of many events\<close>

text \<open>The first occurrence of \<open>n\<close> in a string: what is before it and what is after it.\<close>

fun split_sub :: "string \<Rightarrow> string \<Rightarrow> (string \<times> string) option" where
  "split_sub n [] = (if n = [] then Some ([], []) else None)"
| "split_sub n (c # cs) =
     (if starts_with (c # cs) n then Some ([], drop (length n) (c # cs))
      else (case split_sub n cs of None \<Rightarrow> None | Some (pre, post) \<Rightarrow> Some (c # pre, post)))"

text \<open>\<open>value.match(/BEGIN:VEVENT[\s\S]*?END:VEVENT/)\<close>: from the first \<open>BEGIN:VEVENT\<close>
  to the first \<open>END:VEVENT\<close> after it; \<open>None\<close> for no match.\<close>

definition match_vevent :: "string \<Rightarrow> string option" where
  "match_vevent v =
     (case split_sub ''BEGIN:VEVENT'' v of
        None \<Rightarrow> None
      | Some (before, rest) \<Rightarrow>
          (case split_sub ''END:VEVENT'' rest of
             None \<Rightarrow> None
           | Some (mid, after) \<Rightarrow> Some (''BEGIN:VEVENT'' @ mid @ ''END:VEVENT'')))"

definition newline :: string where
  "newline = [CHR 0x0A]"

definition ics_header :: string where
  "ics_header =
     ''BEGIN:VCALENDAR'' @ newline @ ''VERSION:2.0'' @ newline
     @ ''PRODID:-//Youth Sports Calendar//EN'' @ newline
     @ ''CALSCALE:GREGORIAN'' @ newline @ ''METHOD:PUBLISH'' @ newline"

text \<open>
  The body of \<open>events.forEach\<close>, on the two variables of the loop. \<open>!result.error\<close> holds
  for no error and for an empty message. A result without a value makes \<open>match\<close> throw,
  which the \<open>catch\<close> inside the loop logs; a value without an event block adds nothing.
\<close>

definition add_event :: "platform \<Rightarrow> string \<times> nat \<Rightarrow> event \<Rightarrow> string \<times> nat" where
  "add_event p state event =
     (case state of (icsContent, eventCount) \<Rightarrow>
        (let result = generateICSContent p event
         in if or_empty (ics_error result) = [] then
              (case ics_value result of
                 None \<Rightarrow> (icsContent, eventCount)
               | Some v \<Rightarrow>
                   (case match_vevent v of
                      None \<Rightarrow> (icsContent, eventCount)
                    | Some veventMatch \<Rightarrow> (icsContent @ veventMatch @ newline, eventCount + 1)))
            else (icsContent, eventCount)))"

text \<open>The loop: \<open>icsContent\<close> and \<open>eventCount\<close> after it.\<close>

definition export_loop :: "platform \<Rightarrow> event list \<Rightarrow> string \<times> nat" where
  "export_loop p events = foldl (add_event p) (ics_header, 0) events"

text \<open>
  What a call of \<open>downloadMultipleEventsICS\<close> shows, and what it returns. It shows the
  alert with its message, or the download of a file with its name and its text. It
  returns no value on either path (\<open>return;\<close> after the alert, the end of the body after
  the download): \<open>returned\<close> is \<open>None\<close>, for \<open>undefined\<close>.
\<close>

datatype effect = Alert string | Download string string

record export_call =
  shown :: effect
  returned :: "nat option"

definition downloadMultipleEventsICS :: "platform \<Rightarrow> event list \<Rightarrow> export_call" where
  "downloadMultipleEventsICS p events =
     (case export_loop p events of (icsContent, eventCount) \<Rightarrow>
        if eventCount = 0 then
          \<lparr>shown = Alert ''Could not generate the .ics file. No valid events found.'',
           returned = None\<rparr>
        else
          \<lparr>shown = Download ''youth_sports_events.ics'' (icsContent @ ''END:VCALENDAR''),
           returned = None\<rparr>)"

text \<open>The event block of a row whose serialization succeeds: the library reports no
  error, and its text holds an event block. \<open>None\<close> for a row whose serialization fails.\<close>

definition vevent_of :: "platform \<Rightarrow> event \<Rightarrow> string option" where
  "vevent_of p event =
     (if or_empty (ics_error (generateICSContent p event)) = []
      then (case ics_value (generateICSContent p event) of None \<Rightarrow> None | Some v \<Rightarrow> match_vevent v)
      else None)"

section \<open>Platforms for the examples\<close>

text \<open>Three-way comparison of two strings by code units.\<close>

fun compare_units :: "string \<Rightarrow> string \<Rightarrow> int" where
  "compare_units [] [] = 0"
| "compare_units [] (b # v) = - 1"
| "compare_units (a # u) [] = 1"
| "compare_units (a # u) (b # v) =
     (if a = b then compare_units u v
      else if (of_char a :: int) < of_char b then - 1 else 1)"

text \<open>
  A collation to evaluate examples with, as the engines' default (ICU) collation orders
  names made of ASCII letters, digits and spaces: by the letters first, whatever their
  case, and between two names that differ in case only, lower case first.
\<close>

definition localeCompare_en :: "string \<Rightarrow> string \<Rightarrow> int" where
  "localeCompare_en a b =
     (let c = compare_units (toLowerCase a) (toLowerCase b)
      in if c = 0 then - compare_units a b else c)"

text \<open>
  A parser to evaluate examples with, after \<open>parseISO\<close> of date-fns. A string is split at
  \<open>T\<close> or a space into a date and a time of day, read as local time; a string of more
  than two parts, or whose first part holds a colon, is no date. The date is a year of
  four digits, alone (its first day) or followed by a month (its first day), by a month
  and a day, or by the number of a day in the year, with or without the dashes. The time
  is \<open>HH\<close>, \<open>HH:MM\<close> or \<open>HH:MM:SS\<close>, with or without the colons, and \<open>24:00:00\<close> is
  midnight of the next day. The library also reads week dates, fractions of a unit, time
  zones, years of six digits and centuries; this parser does not, and the examples have
  none.
\<close>

definition two_from :: "string \<Rightarrow> (int \<times> string) option" where
  "two_from s =
     (if 2 \<le> length s then
        (case number (take 2 s) of None \<Rightarrow> None | Some n \<Rightarrow> Some (n, drop 2 s))
      else None)"

definition skip_char :: "char \<Rightarrow> string \<Rightarrow> string" where
  "skip_char c s = (if starts_with s [c] then drop 1 s else s)"

definition sample_date :: "string \<Rightarrow> civil option" where
  "sample_date s =
     (if length s < 4 then None
      else (case number (take 4 s) of
              None \<Rightarrow> None
            | Some y \<Rightarrow>
                (let r = skip_char CHR ''-'' (drop 4 s)
                 in if r = [] then Some (y, 1, 1)
                    else if length r = 3 then
                      (case number r of
                         None \<Rightarrow> None
                       | Some n \<Rightarrow>
                           if 1 \<le> n \<and> n \<le> (if leap_year y then 366 else 365)
                           then Some (shift_days (n - 1) (y, 1, 1)) else None)
                    else (case two_from r of
                            None \<Rightarrow> None
                          | Some (m, r') \<Rightarrow>
                              if r' = [] then
                                (if valid_civil (y, m, 1) then Some (y, m, 1) else None)
                              else (let dd = skip_char CHR ''-'' r'
                                    in if length dd = 2 then
                                         (case number dd of
                                            None \<Rightarrow> None
                                          | Some d \<Rightarrow>
                                              if valid_civil (y, m, d) then Some (y, m, d)
                                              else None)
                                       else None)))))"

definition hms :: "int \<Rightarrow> int \<Rightarrow> int \<Rightarrow> int option" where
  "hms h m s =
     (if (if h = 24 then m = 0 \<and> s = 0 else h < 25 \<and> m < 60 \<and> s < 60)
      then Some (((h * 60 + m) * 60 + s) * 1000) else None)"

definition sample_time :: "string \<Rightarrow> int option" where
  "sample_time s =
     (case two_from s of
        None \<Rightarrow> None
      | Some (h, r) \<Rightarrow>
          if r = [] then hms h 0 0
          else (case two_from (skip_char CHR '':'' r) of
                  None \<Rightarrow> None
                | Some (m, r') \<Rightarrow>
                    if r' = [] then hms h m 0
                    else (case two_from (skip_char CHR '':'' r') of
                            None \<Rightarrow> None
                          | Some (sec, r'') \<Rightarrow> if r'' = [] then hms h m sec else None)))"

definition sample_date_time :: "string \<Rightarrow> string \<Rightarrow> datetime option" where
  "sample_date_time d t =
     (if CHR '':'' \<in> set d then None
      else (case sample_date d of
              None \<Rightarrow> None
            | Some c \<Rightarrow>
                if t = [] then Some (c, 0)
                else (case sample_time t of None \<Rightarrow> None | Some ms \<Rightarrow> Some (add_ms (c, 0) ms))))"

definition sample_parseISO :: "string \<Rightarrow> datetime option" where
  "sample_parseISO s =
     (case split_at (\<lambda>c. c = CHR ''T'' \<or> c = CHR '' '') s of
        [d] \<Rightarrow> sample_date_time d []
      | [d, t] \<Rightarrow> sample_date_time d t
      | _ \<Rightarrow> None)"

definition date8 :: "civil \<Rightarrow> string" where
  "date8 c = (case c of (y, m, d) \<Rightarrow> iso_year y @ two_digits m @ two_digits d)"

definition crlf :: string where
  "crlf = [CHR 0x0D, CHR 0x0A]"

text \<open>
  A serializer to evaluate examples with. Like the \<open>ics\<close> library, it checks the object
  before it writes anything: the library knows no key \<open>allDay\<close> and returns an error (a
  \<open>ValidationError\<close>), and no text, for an object that has one, as it does when a date
  triple is not three numbers. An object that passes is laid out as an all-day event in
  the lines of the calendar format. Every object that \<open>generateICSContent\<close> builds has
  the key.
\<close>

definition sample_createEvent :: "ics_event \<Rightarrow> ics_result" where
  "sample_createEvent e =
     (if ics_allDay e \<noteq> None then
        \<lparr>ics_error = Some ''ValidationError'', ics_value = None\<rparr>
      else
        (case (ics_start e, ics_end e) of
           (Some s, Some f) \<Rightarrow>
             \<lparr>ics_error = None,
              ics_value = Some (''BEGIN:VCALENDAR'' @ crlf @ ''VERSION:2.0'' @ crlf
                                @ ''BEGIN:VEVENT'' @ crlf
                                @ ''UID:'' @ ics_uid e @ crlf
                                @ ''SUMMARY:'' @ String_of (ics_title e) @ crlf
                                @ ''DTSTART;VALUE=DATE:'' @ date8 s @ crlf
                                @ ''DTEND;VALUE=DATE:'' @ date8 f @ crlf
                                @ ''STATUS:'' @ ics_status e @ crlf
                                @ ''END:VEVENT'' @ crlf @ ''END:VCALENDAR'' @ crlf)\<rparr>
         | _ \<Rightarrow> \<lparr>ics_error = Some ''ValidationError'', ics_value = None\<rparr>))"

text \<open>The platform of the examples: its clock is UTC, its \<open>Date.parse\<close> reads complete
  ISO dates only, its case mapping is that of the ASCII letters, and it has the
  collation, the parser and the serializer above.\<close>

definition en_platform :: platform where
  "en_platform =
     \<lparr>lowerCase = toLowerCase, localeCompare = localeCompare_en,
      parseISO_string = sample_parseISO, legacyDateParse = (\<lambda>s. None),
      localTZA = (\<lambda>t isUTC. 0), createEvent = sample_createEvent\<rparr>"

text \<open>
  A platform whose clock is that of America/New_York in 2024: five hours behind UTC, and
  four from 10 March, 07:00 UTC, to 3 November, 06:00 UTC; a local time that the clock
  skips or shows twice is read with the offset before the change.
\<close>

definition new_york_offset :: "datetime \<Rightarrow> bool \<Rightarrow> int" where
  "new_york_offset t isUTC =
     (if isUTC then
        (if getTime t < getTime ((2024, 3, 10), 7 * 3600000) then - 5 * 3600000
         else if getTime t < getTime ((2024, 11, 3), 6 * 3600000) then - 4 * 3600000
         else - 5 * 3600000)
      else
        (if getTime t < getTime ((2024, 3, 10), 3 * 3600000) then - 5 * 3600000
         else if getTime t < getTime ((2024, 11, 3), 2 * 3600000) then - 4 * 3600000
         else - 5 * 3600000))"

definition new_york_2024 :: platform where
  "new_york_2024 = en_platform\<lparr>localTZA := new_york_offset\<rparr>"

text \<open>
  A platform whose clock is that of Pacific/Apia at the end of 2011: ten hours behind UTC
  until 30 December, 10:00 UTC, the end of 29 December there, and fourteen hours ahead of
  UTC from then on, so that the clock skips 30 December; a local time that the clock
  skips is read with the offset before the change.
\<close>

definition apia_offset :: "datetime \<Rightarrow> bool \<Rightarrow> int" where
  "apia_offset t isUTC =
     (if isUTC then
        (if getTime t < getTime ((2011, 12, 30), 10 * 3600000) then - 10 * 3600000
         else 14 * 3600000)
      else
        (if getTime t < getTime ((2011, 12, 31), 0) then - 10 * 3600000
         else 14 * 3600000))"

definition apia_2011 :: platform where
  "apia_2011 = en_platform\<lparr>localTZA := apia_offset\<rparr>"

text \<open>The platform of the examples with a clock at a constant offset from UTC.\<close>

definition fixed_offset_platform :: "int \<Rightarrow> platform" where
  "fixed_offset_platform off = en_platform\<lparr>localTZA := (\<lambda>t isUTC. off)\<rparr>"

text \<open>
  A platform whose \<open>Date.parse\<close>, like that of V8, reads more than complete ISO dates:
  a date of the shape \<open>YYYY-MM-DD\<close> or \<open>MM/DD/YYYY\<close> with a day of the month up to 31,
  counting a day that the month does not have on into the next month (30 February 2024
  is 1 March 2024). The first shape is read as midnight UTC and the second as local
  midnight, which on this platform, whose clock is UTC, is the same.
\<close>

definition lenient_parse :: "string \<Rightarrow> datetime option" where
  "lenient_parse s =
     (case (if length s = 10 \<and> s ! 4 = CHR ''-'' \<and> s ! 7 = CHR ''-'' then
              (number (take 4 s), number (take 2 (drop 5 s)), number (drop 8 s))
            else if length s = 10 \<and> s ! 2 = CHR ''/'' \<and> s ! 5 = CHR ''/'' then
              (number (drop 6 s), number (take 2 s), number (take 2 (drop 3 s)))
            else (None, None, None)) of
        (Some y, Some m, Some d) \<Rightarrow>
          if 1 \<le> m \<and> m \<le> 12 \<and> 1 \<le> d \<and> d \<le> 31 then Some (shift_days (d - 1) (y, m, 1), 0)
          else None
      | _ \<Rightarrow> None)"

definition lenient_platform :: platform where
  "lenient_platform = en_platform\<lparr>legacyDateParse := lenient_parse\<rparr>"


section \<open>Properties of the sort\<close>

text \<open>An array of two elements is compared once, the second element passed first.\<close>

lemma sort_by_two:
  "sort_by cmp [x, y] = thenE (cmp y x) (\<lambda>c. Inr (if c < 0 then [y, x] else [x, y]))"
  by (cases "cmp y x") (simp_all add: sort_by_def thenE_def)

lemma insert_by_total:
  "\<forall>b \<in> set ys. cmp x b = Inr (f x b) \<Longrightarrow> insert_by cmp x ys = Inr (stable_insert f x ys)"
  by (induction ys) (auto simp: thenE_def)

lemma set_stable_insert: "set (stable_insert f x ys) = insert x (set ys)"
  by (induction ys) auto

lemma set_foldl_stable_insert:
  "set (foldl (\<lambda>ys x. stable_insert f x ys) acc xs) = set acc \<union> set xs"
  by (induction xs arbitrary: acc) (auto simp: set_stable_insert)

lemma set_stable_sort: "set (stable_sort f xs) = set xs"
  by (simp add: stable_sort_def set_foldl_stable_insert)

lemma sort_onto_total:
  "\<forall>a \<in> set xs. \<forall>b \<in> set acc \<union> set xs. cmp a b = Inr (f a b) \<Longrightarrow>
   sort_onto cmp acc xs = Inr (foldl (\<lambda>ys x. stable_insert f x ys) acc xs)"
proof (induction xs arbitrary: acc)
  case Nil
  show ?case by simp
next
  case (Cons x xs)
  have "insert_by cmp x acc = Inr (stable_insert f x acc)"
    using Cons.prems by (intro insert_by_total) simp
  moreover have "sort_onto cmp (stable_insert f x acc) xs
      = Inr (foldl (\<lambda>ys x. stable_insert f x ys) (stable_insert f x acc) xs)"
    using Cons.prems by (intro Cons.IH) (auto simp: set_stable_insert)
  ultimately show ?case by (simp add: thenE_def)
qed

lemma sort_by_total:
  "\<forall>a \<in> set xs. \<forall>b \<in> set xs. cmp a b = Inr (f a b) \<Longrightarrow>
   sort_by cmp xs = Inr (stable_sort f xs)"
  using sort_onto_total [of xs "[]" cmp f] by (simp add: sort_by_def stable_sort_def thenE_def)

lemma mset_stable_insert: "mset (stable_insert f x ys) = add_mset x (mset ys)"
  by (induction ys) auto

lemma mset_foldl_stable_insert:
  "mset (foldl (\<lambda>ys x. stable_insert f x ys) acc xs) = mset acc + mset xs"
  by (induction xs arbitrary: acc) (auto simp: mset_stable_insert)

lemma mset_stable_sort: "mset (stable_sort f xs) = mset xs"
  by (simp add: stable_sort_def mset_foldl_stable_insert)

lemma length_stable_sort: "length (stable_sort f xs) = length xs"
  using mset_stable_sort [of f xs] by (metis size_mset)

lemma consistent_flip: "consistent f \<Longrightarrow> (f a b < 0) = (0 < f b a)"
  unfolding consistent_def by blast

lemma consistent_trans: "consistent f \<Longrightarrow> f a b \<le> 0 \<Longrightarrow> f b c \<le> 0 \<Longrightarrow> f a c \<le> 0"
  unfolding consistent_def by meson

lemma consistent_after: "consistent f \<Longrightarrow> \<not> f x y < 0 \<Longrightarrow> f y x \<le> 0"
  using consistent_flip [of f x y] by linarith

text \<open>The part already sorted is held in reverse: each element is followed by the
  elements that precede it in the order.\<close>

lemma sorted_stable_insert:
  assumes "consistent f"
  shows "sorted_wrt (\<lambda>a b. f b a \<le> 0) ys \<Longrightarrow>
         sorted_wrt (\<lambda>a b. f b a \<le> 0) (stable_insert f x ys)"
proof (induction ys)
  case Nil
  show ?case by simp
next
  case (Cons y ys)
  show ?case
  proof (cases "f x y < 0")
    case True
    have "sorted_wrt (\<lambda>a b. f b a \<le> 0) (stable_insert f x ys)"
      using Cons by simp
    moreover have "\<forall>z \<in> set (stable_insert f x ys). f z y \<le> 0"
      using True Cons.prems by (simp add: set_stable_insert)
    ultimately show ?thesis using True by simp
  next
    case False
    then have yx: "f y x \<le> 0" using consistent_after [OF assms] by blast
    have "\<forall>z \<in> set ys. f z x \<le> 0"
    proof
      fix z assume "z \<in> set ys"
      then have "f z y \<le> 0" using Cons.prems by simp
      then show "f z x \<le> 0" using consistent_trans [OF assms _ yx] by blast
    qed
    then show ?thesis using False yx Cons.prems by simp
  qed
qed

lemma sorted_foldl_stable_insert:
  assumes "consistent f"
  shows "sorted_wrt (\<lambda>a b. f b a \<le> 0) acc \<Longrightarrow>
         sorted_wrt (\<lambda>a b. f b a \<le> 0) (foldl (\<lambda>ys x. stable_insert f x ys) acc xs)"
  by (induction xs arbitrary: acc) (simp_all add: sorted_stable_insert [OF assms])

lemma sorted_stable_sort:
  "consistent f \<Longrightarrow> sorted_wrt (\<lambda>a b. f a b \<le> 0) (stable_sort f xs)"
  using sorted_foldl_stable_insert [of f "[]" xs]
  by (simp add: stable_sort_def sorted_wrt_rev)

text \<open>The sort is stable: the elements that a consistent comparator ranks with \<open>k\<close> keep
  their input order.\<close>

lemma filter_stable_insert:
  assumes "consistent f"
  shows "filter (\<lambda>y. f k y \<le> 0 \<and> f y k \<le> 0) (stable_insert f x ys)
           = (if f k x \<le> 0 \<and> f x k \<le> 0 then x # filter (\<lambda>y. f k y \<le> 0 \<and> f y k \<le> 0) ys
              else filter (\<lambda>y. f k y \<le> 0 \<and> f y k \<le> 0) ys)"
proof (induction ys)
  case Nil
  show ?case by simp
next
  case (Cons y ys)
  show ?case
  proof (cases "f x y < 0")
    case True
    then have "\<not> f y x \<le> 0" using consistent_flip [OF assms, of x y] by simp
    then have "\<not> ((f k x \<le> 0 \<and> f x k \<le> 0) \<and> (f k y \<le> 0 \<and> f y k \<le> 0))"
      using consistent_trans [OF assms, of y k x] by blast
    then show ?thesis using True Cons by auto
  next
    case False
    then show ?thesis by simp
  qed
qed

lemma filter_foldl_stable_insert:
  assumes "consistent f"
  shows "filter (\<lambda>y. f k y \<le> 0 \<and> f y k \<le> 0) (foldl (\<lambda>ys x. stable_insert f x ys) acc xs)
           = rev (filter (\<lambda>y. f k y \<le> 0 \<and> f y k \<le> 0) xs)
             @ filter (\<lambda>y. f k y \<le> 0 \<and> f y k \<le> 0) acc"
  by (induction xs arbitrary: acc) (simp_all add: filter_stable_insert [OF assms])

lemma stable_sort_stable:
  assumes "consistent f"
  shows "filter (\<lambda>y. f k y \<le> 0 \<and> f y k \<le> 0) (stable_sort f xs)
           = filter (\<lambda>y. f k y \<le> 0 \<and> f y k \<le> 0) xs"
  by (simp add: stable_sort_def rev_filter [symmetric] filter_foldl_stable_insert [OF assms])

text \<open>A comparator that follows a consistent one through a function of its arguments is
  consistent.\<close>

lemma consistent_on: "consistent f \<Longrightarrow> consistent (\<lambda>a b. f (g a) (g b))"
  unfolding consistent_def by blast

text \<open>What a sort that throws has thrown comes from its comparator, and a sort that
  returns keeps the length.\<close>

lemma insert_by_error: "insert_by cmp x ys = Inl e \<Longrightarrow> \<exists>a b. cmp a b = Inl e"
  by (induction ys) (auto simp: thenE_def split: sum.splits if_splits)

lemma sort_onto_error: "sort_onto cmp acc xs = Inl e \<Longrightarrow> \<exists>a b. cmp a b = Inl e"
  by (induction xs arbitrary: acc) (auto simp: thenE_def split: sum.splits dest: insert_by_error)

lemma sort_by_error: "sort_by cmp xs = Inl e \<Longrightarrow> \<exists>a b. cmp a b = Inl e"
  by (auto simp: sort_by_def thenE_def split: sum.splits dest: sort_onto_error)

lemma insert_by_length: "insert_by cmp x ys = Inr zs \<Longrightarrow> length zs = Suc (length ys)"
  by (induction ys arbitrary: zs) (auto simp: thenE_def split: sum.splits if_splits)

lemma sort_onto_length:
  "sort_onto cmp acc xs = Inr ys \<Longrightarrow> length ys = length acc + length xs"
  by (induction xs arbitrary: acc ys)
     (auto simp: thenE_def split: sum.splits dest: insert_by_length)

lemma sort_by_length: "sort_by cmp xs = Inr ys \<Longrightarrow> length ys = length xs"
  by (auto simp: sort_by_def thenE_def split: sum.splits dest: sort_onto_length)

text \<open>An element that the comparator cannot be called with, first or second, makes the
  sort of two or more elements throw, whichever pairs it compares: every element but the
  first is compared when it is placed, and the first when the second is.\<close>

lemma sort_onto_throws:
  assumes x: "\<And>y. cmp x y = Inl e" "\<And>y. cmp y x = Inl e"
      and only: "\<And>a b e'. cmp a b = Inl e' \<Longrightarrow> e' = e"
  shows "x \<in> set xs \<Longrightarrow> acc \<noteq> [] \<Longrightarrow> sort_onto cmp acc xs = Inl e"
proof (induction xs arbitrary: acc)
  case Nil
  then show ?case by simp
next
  case (Cons a xs)
  obtain y ys where acc: "acc = y # ys" using Cons.prems(2) by (cases acc) auto
  show ?case
  proof (cases "insert_by cmp a acc")
    case (Inl e')
    then obtain u v where "cmp u v = Inl e'" using insert_by_error [OF Inl] by blast
    then have "e' = e" by (rule only)
    then show ?thesis using Inl by (simp add: thenE_def)
  next
    case (Inr zs)
    then have "a \<noteq> x" using x(1) acc by (auto simp: thenE_def)
    then have "x \<in> set xs" using Cons.prems(1) by simp
    moreover have "zs \<noteq> []" using insert_by_length [OF Inr] by auto
    ultimately have "sort_onto cmp zs xs = Inl e" by (rule Cons.IH)
    then show ?thesis using Inr by (simp add: thenE_def)
  qed
qed

text \<open>A comparator that throws for the elements it cannot take first, and for no others:
  the sort throws exactly when such an element is placed into a part already sorted.\<close>

lemma insert_by_returns:
  "(\<And>b. \<exists>c. cmp x b = Inr c) \<Longrightarrow> \<exists>zs. insert_by cmp x ys = Inr zs"
proof (induction ys)
  case Nil
  show ?case by simp
next
  case (Cons y ys)
  obtain c where c: "cmp x y = Inr c" using Cons.prems by blast
  obtain zs where "insert_by cmp x ys = Inr zs" using Cons by blast
  then show ?case using c by (simp add: thenE_def)
qed

lemma sort_onto_throws_iff:
  assumes bad: "\<And>a b. bad a \<Longrightarrow> cmp a b = Inl e"
      and good: "\<And>a b. \<not> bad a \<Longrightarrow> \<exists>c. cmp a b = Inr c"
  shows "acc \<noteq> [] \<Longrightarrow> (sort_onto cmp acc xs = Inl e) = (\<exists>x \<in> set xs. bad x)"
proof (induction xs arbitrary: acc)
  case Nil
  show ?case by simp
next
  case (Cons x xs)
  obtain y ys where acc: "acc = y # ys" using Cons.prems by (cases acc) auto
  show ?case
  proof (cases "bad x")
    case True
    then show ?thesis using bad [OF True] by (simp add: acc thenE_def)
  next
    case False
    obtain zs where zs: "insert_by cmp x acc = Inr zs"
      using insert_by_returns [of cmp x acc] good [OF False] by blast
    then have "zs \<noteq> []" using insert_by_length [OF zs] by auto
    then have "(sort_onto cmp zs xs = Inl e) = (\<exists>x \<in> set xs. bad x)" by (rule Cons.IH)
    then show ?thesis using zs False by (simp add: thenE_def)
  qed
qed

lemma sort_by_throws:
  assumes x: "\<And>y. cmp x y = Inl e" "\<And>y. cmp y x = Inl e"
      and only: "\<And>a b e'. cmp a b = Inl e' \<Longrightarrow> e' = e"
  shows "x \<in> set xs \<Longrightarrow> 2 \<le> length xs \<Longrightarrow> sort_by cmp xs = Inl e"
proof -
  assume mem: "x \<in> set xs" and len: "2 \<le> length xs"
  obtain a b rest where xs: "xs = a # b # rest"
    using len by (cases xs; cases "tl xs") auto
  have "sort_onto cmp [a] (b # rest) = Inl e"
  proof (cases "x = a")
    case True
    then show ?thesis using x(2) by (simp add: thenE_def)
  next
    case False
    then have m: "x \<in> set (b # rest)" using mem xs by simp
    show ?thesis
      by (rule sort_onto_throws [of cmp x e, OF x(1) x(2) only m]) simp_all
  qed
  then show ?thesis by (simp add: xs sort_by_def thenE_def)
qed

section \<open>The collation of the examples\<close>

text \<open>The comparison by code units is the lexicographic order of the code units.\<close>

lemma compare_units_less:
  "(compare_units a b < 0) = ((map of_char a :: int list) < map of_char b)"
  by (induction a b rule: compare_units.induct) auto

lemma compare_units_zero: "(compare_units a b = 0) = (a = b)"
  by (induction a b rule: compare_units.induct) auto

lemma code_units_eq: "((map of_char a :: int list) = map of_char b) = (a = b)"
  by (induction a arbitrary: b) (auto simp: Cons_eq_map_conv)

lemma compare_units_greater:
  "(0 < compare_units a b) = ((map of_char b :: int list) < map of_char a)"
proof -
  have "(0 < compare_units a b) = (\<not> compare_units a b < 0 \<and> compare_units a b \<noteq> 0)"
    by linarith
  also have "\<dots> = (\<not> (map of_char a :: int list) < map of_char b \<and> a \<noteq> b)"
    by (simp add: compare_units_less compare_units_zero)
  also have "\<dots> = ((map of_char b :: int list) < map of_char a)"
    using code_units_eq [of a b] by auto
  finally show ?thesis .
qed

lemma localeCompare_en_less:
  "(localeCompare_en a b < 0)
     = ((map of_char (toLowerCase a) :: int list) < map of_char (toLowerCase b)
        \<or> (toLowerCase a = toLowerCase b \<and> (map of_char b :: int list) < map of_char a))"
proof (cases "compare_units (toLowerCase a) (toLowerCase b) = 0")
  case True
  then have "toLowerCase a = toLowerCase b" by (simp add: compare_units_zero)
  then show ?thesis
    using True by (simp add: localeCompare_en_def compare_units_greater)
next
  case False
  then have "toLowerCase a \<noteq> toLowerCase b" by (simp add: compare_units_zero)
  then show ?thesis
    using False by (simp add: localeCompare_en_def compare_units_less)
qed

lemma localeCompare_en_greater:
  "(0 < localeCompare_en a b)
     = ((map of_char (toLowerCase b) :: int list) < map of_char (toLowerCase a)
        \<or> (toLowerCase a = toLowerCase b \<and> (map of_char a :: int list) < map of_char b))"
proof (cases "compare_units (toLowerCase a) (toLowerCase b) = 0")
  case True
  then have "toLowerCase a = toLowerCase b" by (simp add: compare_units_zero)
  then show ?thesis
    using True by (simp add: localeCompare_en_def compare_units_less)
next
  case False
  then have "toLowerCase a \<noteq> toLowerCase b" by (simp add: compare_units_zero)
  then show ?thesis
    using False by (simp add: localeCompare_en_def compare_units_greater)
qed

lemma localeCompare_en_le:
  "(localeCompare_en a b \<le> 0)
     = ((map of_char (toLowerCase a) :: int list) < map of_char (toLowerCase b)
        \<or> (toLowerCase a = toLowerCase b \<and> (map of_char b :: int list) \<le> map of_char a))"
proof -
  have "(localeCompare_en a b \<le> 0) = (\<not> 0 < localeCompare_en a b)" by linarith
  also have "\<dots> = ((map of_char (toLowerCase a) :: int list) < map of_char (toLowerCase b)
        \<or> (toLowerCase a = toLowerCase b \<and> (map of_char b :: int list) \<le> map of_char a))"
    using code_units_eq [of "toLowerCase a" "toLowerCase b"]
    by (auto simp: localeCompare_en_greater)
  finally show ?thesis .
qed

text \<open>The collation of the examples is a consistent comparison, as ECMAScript requires
  of \<open>localeCompare\<close>.\<close>

lemma consistent_localeCompare_en: "consistent localeCompare_en"
  unfolding consistent_def
proof (intro conjI allI)
  fix a b
  show "(localeCompare_en a b < 0) = (0 < localeCompare_en b a)"
    by (auto simp: localeCompare_en_less localeCompare_en_greater)
next
  fix a b c
  show "if localeCompare_en a b \<le> 0 \<and> localeCompare_en b c \<le> 0
        then localeCompare_en a c \<le> 0 else True"
    by (auto simp: localeCompare_en_le)
qed

lemma consistent_en_platform: "consistent (localeCompare en_platform)"
  by (simp add: en_platform_def consistent_localeCompare_en)

section \<open>Month view\<close>

lemma compare_names_lower_total:
  "name a \<noteq> None \<Longrightarrow> name b \<noteq> None \<Longrightarrow> compare_names_lower p a b = Inr (by_name_ci p a b)"
  by (auto simp: compare_names_lower_def by_name_ci_def toLowerCase_of_def thenE_def or_empty_def)

lemma compare_names_lower_None:
  "name a = None \<Longrightarrow> compare_names_lower p a b = Inl TypeError"
  "name b = None \<Longrightarrow> compare_names_lower p a b = Inl TypeError"
  by (auto simp: compare_names_lower_def toLowerCase_of_def thenE_def split: option.splits)

lemma compare_names_lower_error: "compare_names_lower p a b = Inl e \<Longrightarrow> e = TypeError"
  by (auto simp: compare_names_lower_def toLowerCase_of_def thenE_def split: option.splits)

text \<open>The comparator of the cell reads the name of both events, so an event without a
  name among more than two makes the cell throw, whichever pairs the sort compares.\<close>

lemma DayCell_null_name_throws:
  assumes "2 < length (dayEvents p day events)" "x \<in> set (dayEvents p day events)"
      and "name x = None"
  shows "DayCell p day events = Inl TypeError"
proof -
  have "sort_by (compare_names_lower p) (dayEvents p day events) = Inl TypeError"
  proof (rule sort_by_throws [of "compare_names_lower p" x TypeError, OF _ _ _ assms(2)])
    show "\<And>y. compare_names_lower p x y = Inl TypeError"
      using assms(3) by (simp add: compare_names_lower_None)
    show "\<And>y. compare_names_lower p y x = Inl TypeError"
      using assms(3) by (simp add: compare_names_lower_None)
    show "\<And>a b e'. compare_names_lower p a b = Inl e' \<Longrightarrow> e' = TypeError"
      by (rule compare_names_lower_error)
    show "2 \<le> length (dayEvents p day events)" using assms(1) by simp
  qed
  then show ?thesis using assms(1) by (simp add: DayCell_def thenE_def)
qed

lemma DayCell_throws_iff:
  "(DayCell p day events = Inl TypeError)
     = (2 < length (dayEvents p day events)
        \<and> (\<exists>e \<in> set (dayEvents p day events). name e = None))"
proof (cases "2 < length (dayEvents p day events)")
  case False
  then show ?thesis by (simp add: DayCell_def thenE_def)
next
  case True
  show ?thesis
  proof (cases "\<exists>e \<in> set (dayEvents p day events). name e = None")
    case True
    then show ?thesis using \<open>2 < length (dayEvents p day events)\<close> DayCell_null_name_throws by blast
  next
    case False
    then have "sort_by (compare_names_lower p) (dayEvents p day events)
                 = Inr (stable_sort (by_name_ci p) (dayEvents p day events))"
      by (intro sort_by_total) (simp add: compare_names_lower_total)
    then show ?thesis using False by (simp add: DayCell_def thenE_def)
  qed
qed

text \<open>
  C1, as it is stated, fails. The component at \<open>src/src/components/DayCell.js\<close> has no
  sort: for the day of the claim, with the events named Zeta, Alpha, Mid in this order,
  it shows Zeta and Alpha, and \<open>+1 more\<close>. And the component with the sort throws on a
  day of three events when one of them has no name.
\<close>

theorem DayCell_counterexample:
  "DayCell_unsorted en_platform ((2024, 3, 15), 0)
     [named ''1'' ''Zeta'' ''2024-03-15'', named ''2'' ''Alpha'' ''2024-03-15'',
      named ''3'' ''Mid'' ''2024-03-15'']
   = \<lparr>tiles = [named ''1'' ''Zeta'' ''2024-03-15'', named ''2'' ''Alpha'' ''2024-03-15''],
      overflow = Some 1\<rparr>
   \<and> DayCell en_platform ((2024, 3, 15), 0)
     [named ''1'' ''Zeta'' ''2024-03-15'', unnamed ''2'' ''2024-03-15'',
      named ''3'' ''Mid'' ''2024-03-15'']
   = Inl TypeError"
  by code_simp

text \<open>
  C1, amended. Where \<open>localeCompare\<close> is a consistent comparison, as ECMAScript requires:
  in the revision of the component with the sort, the cell of a day on which more than
  two events start, all of them with a name, shows the first two of that day's events in
  the order of their lower-cased names, events of the same lower-cased name in input
  order, with \<open>+(count - 2) more\<close>; the cell of a day with at most two events shows them
  in input order (and compares nothing), with no overflow line; a day with the events
  named Zeta, Alpha, Mid, in this order, shows Alpha and Mid and \<open>+1 more\<close>. In the
  revision at \<open>src/src/components/DayCell.js\<close>, a cell shows the first two of the day's
  events in input order, with \<open>+(count - 2) more\<close> when there are more than two.
\<close>

theorem DayCell_sorts_then_truncates:
  assumes "consistent (localeCompare p)"
  shows "(2 < length (dayEvents p day events)
            \<and> (\<forall>e \<in> set (dayEvents p day events). name e \<noteq> None) \<longrightarrow>
            DayCell p day events =
              Inr \<lparr>tiles = take 2 (stable_sort (by_name_ci p) (dayEvents p day events)),
                   overflow = Some (length (dayEvents p day events) - 2)\<rparr>
            \<and> sorted_wrt (\<lambda>a b. by_name_ci p a b \<le> 0)
                 (stable_sort (by_name_ci p) (dayEvents p day events))
            \<and> mset (stable_sort (by_name_ci p) (dayEvents p day events))
                = mset (dayEvents p day events)
            \<and> filter (\<lambda>e. by_name_ci p k e \<le> 0 \<and> by_name_ci p e k \<le> 0)
                 (stable_sort (by_name_ci p) (dayEvents p day events))
                = filter (\<lambda>e. by_name_ci p k e \<le> 0 \<and> by_name_ci p e k \<le> 0)
                    (dayEvents p day events))
       \<and> (length (dayEvents p day events) \<le> 2 \<longrightarrow>
            DayCell p day events = Inr \<lparr>tiles = dayEvents p day events, overflow = None\<rparr>)
       \<and> DayCell_unsorted p day events =
            \<lparr>tiles = take 2 (dayEvents p day events),
             overflow = (if 2 < length (dayEvents p day events)
                         then Some (length (dayEvents p day events) - 2) else None)\<rparr>
       \<and> DayCell en_platform ((2024, 3, 15), 0)
            [named ''1'' ''Zeta'' ''2024-03-15'', named ''2'' ''Alpha'' ''2024-03-15'',
             named ''3'' ''Mid'' ''2024-03-15'']
          = Inr \<lparr>tiles = [named ''2'' ''Alpha'' ''2024-03-15'', named ''3'' ''Mid'' ''2024-03-15''],
                 overflow = Some 1\<rparr>"
proof (intro conjI impI)
  assume a: "2 < length (dayEvents p day events)
            \<and> (\<forall>e \<in> set (dayEvents p day events). name e \<noteq> None)"
  have "sort_by (compare_names_lower p) (dayEvents p day events)
          = Inr (stable_sort (by_name_ci p) (dayEvents p day events))"
    using a by (intro sort_by_total) (simp add: compare_names_lower_total)
  then show "DayCell p day events =
      Inr \<lparr>tiles = take 2 (stable_sort (by_name_ci p) (dayEvents p day events)),
           overflow = Some (length (dayEvents p day events) - 2)\<rparr>"
    using a by (simp add: DayCell_def thenE_def render_cell_def length_stable_sort)
next
  have c: "consistent (by_name_ci p)"
    unfolding by_name_ci_def using assms by (rule consistent_on)
  show "sorted_wrt (\<lambda>a b. by_name_ci p a b \<le> 0)
          (stable_sort (by_name_ci p) (dayEvents p day events))"
    using c by (rule sorted_stable_sort)
  show "filter (\<lambda>e. by_name_ci p k e \<le> 0 \<and> by_name_ci p e k \<le> 0)
                 (stable_sort (by_name_ci p) (dayEvents p day events))
                = filter (\<lambda>e. by_name_ci p k e \<le> 0 \<and> by_name_ci p e k \<le> 0)
                    (dayEvents p day events)"
    using c by (rule stable_sort_stable)
next
  show "mset (stable_sort (by_name_ci p) (dayEvents p day events)) = mset (dayEvents p day events)"
    by (rule mset_stable_sort)
next
  assume "length (dayEvents p day events) \<le> 2"
  then show "DayCell p day events = Inr \<lparr>tiles = dayEvents p day events, overflow = None\<rparr>"
    by (simp add: DayCell_def thenE_def render_cell_def)
next
  show "DayCell_unsorted p day events =
            \<lparr>tiles = take 2 (dayEvents p day events),
             overflow = (if 2 < length (dayEvents p day events)
                         then Some (length (dayEvents p day events) - 2) else None)\<rparr>"
    by (simp add: DayCell_unsorted_def render_cell_def)
next
  show "DayCell en_platform ((2024, 3, 15), 0)
            [named ''1'' ''Zeta'' ''2024-03-15'', named ''2'' ''Alpha'' ''2024-03-15'',
             named ''3'' ''Mid'' ''2024-03-15'']
          = Inr \<lparr>tiles = [named ''2'' ''Alpha'' ''2024-03-15'', named ''3'' ''Mid'' ''2024-03-15''],
                 overflow = Some 1\<rparr>"
    by code_simp
qed

theorem DayCell_sorts_then_truncates_witness:
  "DayCell en_platform ((2024, 3, 15), 0)
     [named ''1'' ''b'' ''2024-03-15'', named ''2'' ''C'' ''2024-03-15'',
      named ''3'' ''a'' ''2024-03-15'', named ''4'' ''B'' ''2024-03-15'',
      named ''5'' ''d'' ''2024-03-16'']
   = Inr \<lparr>tiles = [named ''3'' ''a'' ''2024-03-15'', named ''1'' ''b'' ''2024-03-15''],
          overflow = Some 2\<rparr>
   \<and> DayCell en_platform ((2024, 3, 16), 0)
     [named ''1'' ''b'' ''2024-03-15'', named ''5'' ''d'' ''2024-03-16'',
      named ''6'' ''a'' ''2024-03-16'']
   = Inr \<lparr>tiles = [named ''5'' ''d'' ''2024-03-16'', named ''6'' ''a'' ''2024-03-16''],
          overflow = None\<rparr>
   \<and> DayCell_unsorted en_platform ((2024, 3, 15), 0)
     [named ''1'' ''b'' ''2024-03-15'', named ''2'' ''C'' ''2024-03-15'',
      named ''3'' ''a'' ''2024-03-15'', named ''4'' ''B'' ''2024-03-15'',
      named ''5'' ''d'' ''2024-03-16'']
   = \<lparr>tiles = [named ''1'' ''b'' ''2024-03-15'', named ''2'' ''C'' ''2024-03-15''],
      overflow = Some 2\<rparr>"
proof -
  let ?d = "((2024, 3, 15), 0) :: datetime"
  let ?es = "[named ''1'' ''b'' ''2024-03-15'', named ''2'' ''C'' ''2024-03-15'',
      named ''3'' ''a'' ''2024-03-15'', named ''4'' ''B'' ''2024-03-15'',
      named ''5'' ''d'' ''2024-03-16'']"
  let ?d' = "((2024, 3, 16), 0) :: datetime"
  let ?es' = "[named ''1'' ''b'' ''2024-03-15'', named ''5'' ''d'' ''2024-03-16'',
      named ''6'' ''a'' ''2024-03-16'']"
  have h: "\<forall>e \<in> set (dayEvents en_platform ?d ?es). name e \<noteq> None" by code_simp
  have n: "2 < length (dayEvents en_platform ?d ?es)" by code_simp
  have v: "take 2 (stable_sort (by_name_ci en_platform) (dayEvents en_platform ?d ?es))
             = [named ''3'' ''a'' ''2024-03-15'', named ''1'' ''b'' ''2024-03-15'']"
    by code_simp
  have l: "length (dayEvents en_platform ?d ?es) - 2 = 2" by code_simp
  have u: "take 2 (dayEvents en_platform ?d ?es)
             = [named ''1'' ''b'' ''2024-03-15'', named ''2'' ''C'' ''2024-03-15'']"
    by code_simp
  have n': "length (dayEvents en_platform ?d' ?es') \<le> 2" by code_simp
  have v': "dayEvents en_platform ?d' ?es'
              = [named ''5'' ''d'' ''2024-03-16'', named ''6'' ''a'' ''2024-03-16'']"
    by code_simp
  note t = DayCell_sorts_then_truncates [OF consistent_en_platform, of ?d ?es]
  note t' = DayCell_sorts_then_truncates [OF consistent_en_platform, of ?d' ?es']
  have 1: "DayCell en_platform ?d ?es
             = Inr \<lparr>tiles = [named ''3'' ''a'' ''2024-03-15'', named ''1'' ''b'' ''2024-03-15''],
                    overflow = Some 2\<rparr>"
    using t h n v l by simp
  have 2: "DayCell en_platform ?d' ?es'
             = Inr \<lparr>tiles = [named ''5'' ''d'' ''2024-03-16'', named ''6'' ''a'' ''2024-03-16''],
                    overflow = None\<rparr>"
    using t' n' v' by simp
  have 3: "DayCell_unsorted en_platform ?d ?es
             = \<lparr>tiles = [named ''1'' ''b'' ''2024-03-15'', named ''2'' ''C'' ''2024-03-15''],
                overflow = Some 2\<rparr>"
    using t n u l by simp
  show ?thesis using 1 2 3 by simp
qed

section \<open>Display helpers and website validation\<close>

lemma getDisplayValue_cases:
  "getDisplayValue v d =
     (if v = None \<or> v = Some [] \<or> toLowerCase (trim (or_empty v)) \<in> set emptyValues then d
      else trim (or_empty v))"
  by (cases v) (auto simp: getDisplayValue_def or_empty_def Let_def trim_def emptyValues_def toLowerCase_def)

text \<open>
  C8. A white-space-only value is not replaced by the default: \<open>getDisplayValue\<close> compares
  with the empty string before it trims, and the list of empty values it looks the
  trimmed string up in does not hold the empty string, so the display value of
  three spaces is the empty string and not \<open>N/A\<close>.
\<close>

theorem getDisplayValue_whitespace_only:
  "getDisplayValue (Some ''   '') ''N/A'' = [] \<and> getDisplayValue (Some '' '') ''N/A'' \<noteq> ''N/A''"
  by code_simp

lemma getDisplayValue_examples:
  "getDisplayValue None ''N/A'' = ''N/A''"
  "getDisplayValue (Some []) ''N/A'' = ''N/A''"
  "getDisplayValue (Some '' Not Available '') ''-'' = ''-''"
  "getDisplayValue (Some ''  U12 '') ''N/A'' = ''U12''"
  by code_simp+

text \<open>
  C9. \<open>isValidExternalWebsite\<close> rejects the empty string, \<open>N/A\<close>, \<open>javascript:alert(1)\<close>
  and \<open>http://localhost/x\<close>, and accepts \<open>https://example.org/event\<close>.
\<close>

theorem isValidExternalWebsite_examples:
  "\<not> isValidExternalWebsite (Some [])
   \<and> \<not> isValidExternalWebsite (Some ''N/A'')
   \<and> \<not> isValidExternalWebsite (Some ''javascript:alert(1)'')
   \<and> \<not> isValidExternalWebsite (Some ''http://localhost/x'')
   \<and> isValidExternalWebsite (Some ''https://example.org/event'')"
  by code_simp

lemma parse_URL_examples:
  "parse_URL ''javascript:alert(1)''
     = Some \<lparr>protocol = ''javascript:'', hostname = [], pathname = ''alert(1)''\<rparr>"
  "parse_URL ''http://localhost/x''
     = Some \<lparr>protocol = ''http:'', hostname = ''localhost'', pathname = ''/x''\<rparr>"
  "parse_URL ''https://Example.org:8080/event?x=1#top''
     = Some \<lparr>protocol = ''https:'', hostname = ''example.org'', pathname = ''/event''\<rparr>"
  "parse_URL ''https://example.org'' = Some \<lparr>protocol = ''https:'', hostname = ''example.org'', pathname = ''/''\<rparr>"
  "parse_URL ''example.org/event'' = None"
  by code_simp+

section \<open>List view\<close>

lemma compare_lower_None:
  "compare_lower p d None y = Inl TypeError" "compare_lower p d x None = Inl TypeError"
  by (auto simp: compare_lower_def toLowerCase_of_def thenE_def split: option.splits)

lemma compare_lower_error: "compare_lower p d x y = Inl e \<Longrightarrow> e = TypeError"
  by (auto simp: compare_lower_def toLowerCase_of_def thenE_def split: option.splits)

lemma sortedEvents_null_location_throws:
  assumes "x \<in> set events" "location x = None" "2 \<le> length events"
  shows "sortedEvents p ''location'' d events = Inl TypeError"
  unfolding sortedEvents_def
proof (rule sort_by_throws [OF _ _ _ assms(1,3)])
  show "\<And>y. compare_events p ''location'' d x y = Inl TypeError"
    using assms(2) by (simp add: compare_events_def compare_lower_None)
  show "\<And>y. compare_events p ''location'' d y x = Inl TypeError"
    using assms(2) by (simp add: compare_events_def compare_lower_None)
  show "\<And>a b e'. compare_events p ''location'' d a b = Inl e' \<Longrightarrow> e' = TypeError"
    by (simp add: compare_events_def compare_lower_error)
qed

text \<open>
  C3. Sorting the list view by location throws when a row has no location: the comparator
  calls \<open>toLowerCase\<close> on the field as it is, for every field but the event type (which
  it first replaces by the empty string), and a list of two rows is compared once.
\<close>

theorem sortedEvents_missing_location_throws:
  "sortedEvents en_platform ''location'' ''asc''
     [(named ''1'' ''Cup'' ''2024-03-15'')\<lparr>location := Some ''Boston''\<rparr>,
      named ''2'' ''Open'' ''2024-03-16''] = Inl TypeError"
  by code_simp

lemma sortedEvents_missing_event_type:
  "sortedEvents en_platform ''eventType'' ''asc''
     [(named ''1'' ''Cup'' ''2024-03-15'')\<lparr>event_type := Some ''Tournament''\<rparr>,
      named ''2'' ''Open'' ''2024-03-16'']
   = Inr [named ''2'' ''Open'' ''2024-03-16'',
          (named ''1'' ''Cup'' ''2024-03-15'')\<lparr>event_type := Some ''Tournament''\<rparr>]"
  by code_simp

section \<open>Filters\<close>

lemma date_lt_None [simp]: "date_lt None b = False" "date_lt a None = False"
  by (auto simp: date_lt_def split: option.splits)

lemma filterE_total:
  "\<forall>x \<in> set xs. \<exists>b. f x = Inr b \<Longrightarrow> filterE f xs = Inr (filter (\<lambda>x. f x = Inr True) xs)"
  by (induction xs) (auto simp: thenE_def)

text \<open>The callback returns for every row: it calls no method on \<open>null\<close>.\<close>

lemma thenE_returns:
  "\<exists>v. r = Inr v \<Longrightarrow> (\<And>v. \<exists>w. g v = Inr w) \<Longrightarrow> \<exists>w. thenE r g = Inr w"
  by (auto simp: thenE_def)

lemma toLowerCase_of_returns: "\<exists>v. toLowerCase_of p (Some s) = Inr v"
  by (simp add: toLowerCase_of_def)

lemma if_returns:
  "(c \<Longrightarrow> \<exists>v. x = Inr v) \<Longrightarrow> (\<not> c \<Longrightarrow> \<exists>v. y = Inr v) \<Longrightarrow> \<exists>v. (if c then x else y) = Inr v"
  by simp

lemma Inr_returns: "\<exists>w. Inr v = Inr w"
  by simp

lemma passes_returns: "\<exists>b. passes p q f e = Inr b"
  unfolding passes_def Let_def
  by (intro thenE_returns if_returns toLowerCase_of_returns Inr_returns)

lemma outside_range_invalid: "new_Date p (start_date e) = None \<Longrightarrow> \<not> outside_range p r e"
  by (simp add: outside_range_def Let_def split: option.splits)

lemma outside_range_cleared: "\<not> outside_range p \<lparr>range_start = None, range_end = None\<rparr> e"
  by (simp add: outside_range_def)

lemma applyFilters_returns:
  "applyFilters p events q f = Inr (filter (\<lambda>e. passes p q f e = Inr True) events)"
  unfolding applyFilters_def by (intro filterE_total) (simp add: passes_returns)

text \<open>
  C4, as it is stated, fails: a start date that is no date of the calendar is compared
  with the bounds, and excluded by them, when the engine reads it as a date all the same.
  Where \<open>Date.parse\<close> counts 30 February 2024 on to 1 March, as in V8, a row of that
  start date is removed by a range that starts on 1 June 2024.
\<close>

theorem applyFilters_malformed_date_counterexample:
  "applyFilters lenient_platform [named ''1'' ''Cup'' ''2024-02-30''] []
     (no_filters\<lparr>dateRange :=
        \<lparr>range_start = Some (Some ((2024, 6, 1), 0)), range_end = None\<rparr>\<rparr>)
   = Inr []
   \<and> new_Date lenient_platform (Some ''2024-02-30'') = Some ((2024, 3, 1), 0)"
  by code_simp

text \<open>
  C4, amended. The filter never throws, whatever the rows, the search text and the
  filters. A row whose start date the engine cannot read (\<open>new Date\<close> of it is an Invalid
  Date) is never excluded by a bound of the date range: it passes exactly when it passes
  with the range cleared, and with nothing but a range set it is kept.
\<close>

theorem applyFilters_invalid_date_fails_open:
  "(\<exists>kept. applyFilters p events q f = Inr kept)
   \<and> (new_Date p (start_date e) = None \<longrightarrow>
        passes p q f e
          = passes p q (f\<lparr>dateRange := \<lparr>range_start = None, range_end = None\<rparr>\<rparr>) e
        \<and> (e \<in> set events \<longrightarrow>
             (\<exists>kept. applyFilters p events [] (no_filters\<lparr>dateRange := r\<rparr>) = Inr kept
                     \<and> e \<in> set kept)))"
proof (intro conjI impI)
  show "\<exists>kept. applyFilters p events q f = Inr kept"
    by (simp add: applyFilters_returns)
next
  assume "new_Date p (start_date e) = None"
  then show "passes p q f e
          = passes p q (f\<lparr>dateRange := \<lparr>range_start = None, range_end = None\<rparr>\<rparr>) e"
    by (simp add: passes_def Let_def outside_range_invalid outside_range_cleared
          cong: if_cong split del: if_split)
next
  assume a: "new_Date p (start_date e) = None" and m: "e \<in> set events"
  have "passes p [] (no_filters\<lparr>dateRange := r\<rparr>) e = Inr True"
    using a by (simp add: passes_def no_filters_def thenE_def outside_range_invalid)
  then show "\<exists>kept. applyFilters p events [] (no_filters\<lparr>dateRange := r\<rparr>) = Inr kept
                     \<and> e \<in> set kept"
    using m by (simp add: applyFilters_returns)
qed

theorem applyFilters_invalid_date_fails_open_witness:
  "\<exists>kept. applyFilters en_platform
             [named ''0'' ''Open'' ''2024-03-16'', named ''1'' ''Cup'' ''next week''] []
             (no_filters\<lparr>dateRange :=
                \<lparr>range_start = Some (Some ((2024, 6, 1), 0)), range_end = None\<rparr>\<rparr>) = Inr kept
          \<and> named ''1'' ''Cup'' ''next week'' \<in> set kept"
proof -
  have h: "new_Date en_platform (start_date (named ''1'' ''Cup'' ''next week'')) = None"
    by code_simp
  show ?thesis
    using applyFilters_invalid_date_fails_open
      [of en_platform "[named ''0'' ''Open'' ''2024-03-16'', named ''1'' ''Cup'' ''next week'']"
          "[]" no_filters "named ''1'' ''Cup'' ''next week''"
          "\<lparr>range_start = Some (Some ((2024, 6, 1), 0)), range_end = None\<rparr>"] h
    by simp
qed

lemma applyFilters_lenient_examples:
  "applyFilters lenient_platform [named ''1'' ''Cup'' ''03/15/2024''] []
     (no_filters\<lparr>dateRange :=
        \<lparr>range_start = Some (Some ((2024, 6, 1), 0)), range_end = None\<rparr>\<rparr>)
   = Inr []"
  "applyFilters lenient_platform [named ''1'' ''Cup'' ''next week''] []
     (no_filters\<lparr>dateRange :=
        \<lparr>range_start = Some (Some ((2024, 6, 1), 0)), range_end = None\<rparr>\<rparr>)
   = Inr [named ''1'' ''Cup'' ''next week'']"
  by code_simp+

lemma applyFilters_date_range_example:
  "applyFilters en_platform
     [named ''0'' ''Open'' ''2024-03-16'', named ''1'' ''Cup'' ''next week'',
      named ''2'' ''Final'' ''2024-06-02''] []
     (no_filters\<lparr>dateRange :=
        \<lparr>range_start = Some (Some ((2024, 6, 1), 0)), range_end = None\<rparr>\<rparr>)
   = Inr [named ''1'' ''Cup'' ''next week'', named ''2'' ''Final'' ''2024-06-02'']"
  by code_simp

section \<open>Calendar arithmetic\<close>

lemma div_succ:
  assumes "0 < k"
  shows "((a::int) + 1) div k = a div k + (if (a + 1) mod k = 0 then 1 else 0)"
proof -
  have a: "a = k * (a div k) + a mod k" by simp
  have r: "0 \<le> a mod k" "a mod k < k" using assms by simp_all
  show ?thesis
  proof (cases "a mod k + 1 < k")
    case True
    have e: "a + 1 = k * (a div k) + (a mod k + 1)" using a by linarith
    have "(a + 1) div k = a div k"
      using e r True by (intro int_div_pos_eq [of _ _ _ "a mod k + 1"]) auto
    moreover have "(a + 1) mod k = a mod k + 1"
      using e r True by (intro int_mod_pos_eq [of _ _ "a div k"]) auto
    ultimately show ?thesis using r by simp
  next
    case False
    then have k: "a mod k + 1 = k" using r by linarith
    have e: "a + 1 = k * (a div k + 1) + 0"
    proof -
      have "a + 1 = k * (a div k) + k" using a k by linarith
      then show ?thesis by (simp add: algebra_simps)
    qed
    have "(a + 1) div k = a div k + 1"
      using e assms by (intro int_div_pos_eq [of _ _ _ 0]) auto
    moreover have "(a + 1) mod k = 0"
      using e assms by (intro int_mod_pos_eq [of _ _ "a div k + 1"]) auto
    ultimately show ?thesis by simp
  qed
qed

lemma leap_year_mod:
  "leap_year y = ((y - 1600) mod 400 = 0 \<or> ((y - 1968) mod 4 = 0 \<and> (y - 1900) mod 100 \<noteq> 0))"
proof -
  have "(y - 1600) mod 400 = y mod 400"
    using mod_mult_self1 [of y "- 4" 400] by simp
  moreover have "(y - 1968) mod 4 = y mod 4"
    using mod_mult_self1 [of y "- 492" 4] by simp
  moreover have "(y - 1900) mod 100 = y mod 100"
    using mod_mult_self1 [of y "- 19" 100] by simp
  ultimately show ?thesis by (simp add: leap_year_def)
qed

lemma DayFromYear_Suc: "DayFromYear (y + 1) = DayFromYear y + (if leap_year y then 366 else 365)"
proof -
  have a: "(y + 1 - 1969) div 4 = (y - 1969) div 4 + (if (y - 1968) mod 4 = 0 then 1 else 0)"
    using div_succ [of 4 "y - 1969"] by (simp add: algebra_simps)
  have b: "(y + 1 - 1901) div 100 = (y - 1901) div 100 + (if (y - 1900) mod 100 = 0 then 1 else 0)"
    using div_succ [of 100 "y - 1901"] by (simp add: algebra_simps)
  have c: "(y + 1 - 1601) div 400 = (y - 1601) div 400 + (if (y - 1600) mod 400 = 0 then 1 else 0)"
    using div_succ [of 400 "y - 1601"] by (simp add: algebra_simps)
  have d: "(y - 1900) mod 100 = 0" if "(y - 1600) mod 400 = 0"
  proof -
    have "400 dvd y - 1600" using that by (simp add: mod_eq_0_iff_dvd)
    then have "100 dvd y - 1600" by (rule dvd_trans [rotated]) simp
    moreover have "(100::int) dvd 300" by simp
    ultimately have "100 dvd (y - 1600) - 300" by (rule dvd_diff)
    then show ?thesis by (simp add: mod_eq_0_iff_dvd)
  qed
  have e: "(y - 1968) mod 4 = 0" if "(y - 1900) mod 100 = 0"
  proof -
    have "100 dvd y - 1900" using that by (simp add: mod_eq_0_iff_dvd)
    then have "4 dvd y - 1900" by (rule dvd_trans [rotated]) simp
    moreover have "(4::int) dvd 68" by simp
    ultimately have "4 dvd (y - 1900) - 68" by (rule dvd_diff)
    then show ?thesis by (simp add: mod_eq_0_iff_dvd)
  qed
  show ?thesis
    unfolding DayFromYear_def leap_year_mod a b c using d e by auto
qed

lemma days_in_month_bounds: "28 \<le> days_in_month y m" "days_in_month y m \<le> 31"
  by (auto simp: days_in_month_def)

lemma valid_next_day: "valid_civil c \<Longrightarrow> valid_civil (next_day c)"
  using days_in_month_bounds(1)
  by (auto simp: valid_civil_def next_day_def split: prod.splits intro: order_trans [of 1 28])

lemma valid_prev_day: "valid_civil c \<Longrightarrow> valid_civil (prev_day c)"
  using days_in_month_bounds(1)
  by (auto simp: valid_civil_def prev_day_def days_in_month_def split: prod.splits)

lemma prev_next_day: "valid_civil c \<Longrightarrow> prev_day (next_day c) = c"
  using days_in_month_bounds(1)
  by (auto simp: valid_civil_def prev_day_def next_day_def split: prod.splits)
     (auto simp: days_in_month_def split: if_splits)

lemma next_prev_day: "valid_civil c \<Longrightarrow> next_day (prev_day c) = c"
  using days_in_month_bounds(1)
  by (auto simp: valid_civil_def prev_day_def next_day_def split: prod.splits)
     (auto simp: days_in_month_def split: if_splits)

lemma days_before_month_Suc:
  "1 \<le> m \<Longrightarrow> days_before_month y (m + 1) = days_before_month y m + days_in_month y m"
  by (simp add: days_before_month_def upto_rec2)

lemma days_before_month_1: "days_before_month y 1 = 0"
  by (simp add: days_before_month_def)

lemma upto_1_11: "[1..11] = [1,2,3,4,5,6,7,8,9,10,11::int]"
  by (simp add: upto.simps)

lemma days_before_month_12:
  "days_before_month y 12 + 31 = (if leap_year y then 366 else 365)"
  by (simp add: days_before_month_def upto_1_11 days_in_month_def)

lemma day_number_next_day: "valid_civil c \<Longrightarrow> day_number (next_day c) = day_number c + 1"
proof -
  assume v: "valid_civil c"
  obtain y m d where c: "c = (y, m, d)" by (cases c) auto
  have b: "1 \<le> m" "m \<le> 12" "1 \<le> d" "d \<le> days_in_month y m"
    using v by (auto simp: c valid_civil_def)
  consider "d < days_in_month y m" | "d = days_in_month y m" "m < 12" | "d = days_in_month y m" "m = 12"
    using b by linarith
  then show ?thesis
  proof cases
    case 1
    then show ?thesis by (simp add: c next_day_def day_number_def)
  next
    case 2
    then show ?thesis using b days_before_month_Suc [of m y]
      by (simp add: c next_day_def day_number_def)
  next
    case 3
    then have "d = 31" by (simp add: days_in_month_def)
    then show ?thesis using 3 days_before_month_12 [of y] DayFromYear_Suc [of y]
      by (simp add: c next_day_def day_number_def days_before_month_1 days_in_month_def)
  qed
qed

lemma day_number_prev_day: "valid_civil c \<Longrightarrow> day_number (prev_day c) = day_number c - 1"
  using day_number_next_day [OF valid_prev_day, of c] next_prev_day [of c] by simp

lemma funpow_next_day:
  "valid_civil c \<Longrightarrow> valid_civil ((next_day ^^ n) c) \<and> day_number ((next_day ^^ n) c) = day_number c + int n"
  by (induction n) (auto simp: valid_next_day day_number_next_day)

lemma funpow_prev_day:
  "valid_civil c \<Longrightarrow> valid_civil ((prev_day ^^ n) c) \<and> day_number ((prev_day ^^ n) c) = day_number c - int n"
  by (induction n) (auto simp: valid_prev_day day_number_prev_day)

lemma shift_days_valid: "valid_civil c \<Longrightarrow> valid_civil (shift_days n c)"
  by (simp add: shift_days_def funpow_next_day funpow_prev_day)

lemma day_number_shift_days: "valid_civil c \<Longrightarrow> day_number (shift_days n c) = day_number c + n"
  by (simp add: shift_days_def funpow_next_day funpow_prev_day)

lemma funpow_next_prev: "valid_civil c \<Longrightarrow> (next_day ^^ n) ((prev_day ^^ n) c) = c"
proof (induction n arbitrary: c)
  case 0
  then show ?case by simp
next
  case (Suc n)
  have "(next_day ^^ Suc n) ((prev_day ^^ Suc n) c) = (next_day ^^ n) (next_day (prev_day ((prev_day ^^ n) c)))"
    by (simp add: funpow_swap1)
  also have "\<dots> = (next_day ^^ n) ((prev_day ^^ n) c)"
    using Suc.prems by (simp add: next_prev_day funpow_prev_day)
  finally show ?case using Suc by simp
qed

lemma weekday_range: "0 \<le> weekday c" "weekday c < 7"
  by (simp_all add: weekday_def)

lemma startOfWeek_sunday:
  assumes "valid_civil (fst d)"
  shows "weekday (fst (startOfWeek d)) = 0"
proof -
  have "day_number (fst (startOfWeek d)) = day_number (fst d) - weekday (fst d)"
    using assms by (simp add: startOfWeek_def day_number_shift_days)
  then show ?thesis by (simp add: weekday_def) presburger
qed

lemma startOfWeek_covers:
  assumes "valid_civil (fst d)"
  shows "fst (addDays (startOfWeek d) (weekday (fst d))) = fst d"
  using assms weekday_range [of "fst d"]
  by (simp add: addDays_def startOfWeek_def shift_days_def funpow_next_prev)

section \<open>Week view\<close>

lemma mapE_total: "\<forall>x \<in> set xs. f x = Inr (g x) \<Longrightarrow> mapE f xs = Inr (map g xs)"
  by (induction xs) (auto simp: thenE_def)

lemma compare_names_total: "name a \<noteq> None \<Longrightarrow> compare_names p a b = Inr (by_name p a b)"
  by (auto simp: compare_names_def by_name_def String_of_def split: option.splits)

lemma compare_names_None: "name a = None \<Longrightarrow> compare_names p a b = Inl TypeError"
  by (simp add: compare_names_def)

lemma getEventsForDate_total:
  assumes "\<forall>e \<in> set (dayEvents p d events). name e \<noteq> None"
  shows "getEventsForDate p events d = Inr (stable_sort (by_name p) (dayEvents p d events))"
  unfolding getEventsForDate_def
  using assms by (intro sort_by_total) (simp add: compare_names_total)

text \<open>The comparator of the week view reads the name of its first argument, and the sort
  passes every element but the first of the array first: the list of a day throws
  exactly when an event of the day other than the first has no name.\<close>

lemma getEventsForDate_throws_iff:
  "(getEventsForDate p events d = Inl TypeError)
     = (\<exists>e \<in> set (tl (dayEvents p d events)). name e = None)"
proof (cases "dayEvents p d events")
  case Nil
  then show ?thesis by (simp add: getEventsForDate_def sort_by_def thenE_def)
next
  case (Cons a rest)
  have "(sort_onto (compare_names p) [a] rest = Inl TypeError)
          = (\<exists>e \<in> set rest. name e = None)"
    by (rule sort_onto_throws_iff) (auto simp: compare_names_def split: option.splits)
  moreover have "rev ys \<noteq> []" if "sort_onto (compare_names p) [a] rest = Inr ys" for ys
    using sort_onto_length [OF that] by auto
  ultimately show ?thesis
    by (auto simp: getEventsForDate_def Cons sort_by_def thenE_def split: sum.splits)
qed

text \<open>So a day of two or more events that have no name throws, and it does so whichever
  pairs a sort compares and whichever way it passes them.\<close>

lemma getEventsForDate_unnamed_throws:
  assumes "2 \<le> length (dayEvents p d events)"
      and "\<forall>e \<in> set (dayEvents p d events). name e = None"
  shows "getEventsForDate p events d = Inl TypeError"
proof -
  obtain a b rest where xs: "dayEvents p d events = a # b # rest"
    using assms(1) by (cases "dayEvents p d events"; cases "tl (dayEvents p d events)") auto
  then have "name b = None" using assms(2) by simp
  then show ?thesis
    by (simp add: getEventsForDate_def xs sort_by_def thenE_def compare_names_None)
qed

text \<open>
  C2. The week view throws where the claim has a sorted list: its comparator is
  \<open>a.name.localeCompare(b.name)\<close>, and the name of a row can be \<open>null\<close>. With an event
  named Alpha and an event without a name on Wednesday, 13 March 2024, in this order, the
  sort passes the later event first, its name is \<open>null\<close>, and the column, and with it the
  whole week, is a \<open>TypeError\<close>; so is a day of two events without a name, in every
  engine (\<open>getEventsForDate_unnamed_throws\<close>).
\<close>

theorem renderWeekView_null_name_throws:
  "week_column en_platform
     [named ''1'' ''Alpha'' ''2024-03-13'', unnamed ''2'' ''2024-03-13''] ((2024, 3, 13), 0)
   = Inl TypeError
   \<and> renderWeekView en_platform
     [named ''1'' ''Alpha'' ''2024-03-13'', unnamed ''2'' ''2024-03-13'']
     ((2024, 3, 13), 36000000)
   = Inl TypeError
   \<and> renderWeekView en_platform
     [unnamed ''1'' ''2024-03-13'', unnamed ''2'' ''2024-03-13''] ((2024, 3, 13), 36000000)
   = Inl TypeError"
  by code_simp

text \<open>
  Where the events of the week have names, and \<open>localeCompare\<close> is a consistent
  comparison, the week view is as C2 has it: seven columns, for the seven days from the
  Sunday on or before the anchor date (the anchor is one of them); each column shows the
  first two of the events that start on its day, in the order of their names, whatever
  their number, and \<open>+(count - 2) more\<close> when there are more than two.
\<close>

lemma renderWeekView_columns:
  assumes "consistent (localeCompare p)"
      and "valid_civil (fst currentDate)"
      and "\<forall>i \<in> set [0, 1, 2, 3, 4, 5, 6].
             \<forall>e \<in> set (dayEvents p (addDays (startOfWeek currentDate) i) events). name e \<noteq> None"
  shows "renderWeekView p events currentDate
           = Inr (map (\<lambda>i. (addDays (startOfWeek currentDate) i,
                    \<lparr>tiles = take 2 (stable_sort (by_name p)
                                      (dayEvents p (addDays (startOfWeek currentDate) i) events)),
                     overflow =
                       (if 2 < length (dayEvents p (addDays (startOfWeek currentDate) i) events)
                        then Some (length (dayEvents p (addDays (startOfWeek currentDate) i) events) - 2)
                        else None)\<rparr>))
                  [0, 1, 2, 3, 4, 5, 6])
       \<and> weekday (fst (startOfWeek currentDate)) = 0
       \<and> fst (addDays (startOfWeek currentDate) (weekday (fst currentDate))) = fst currentDate"
proof (intro conjI)
  have "week_column p events d
          = Inr (d, \<lparr>tiles = take 2 (stable_sort (by_name p) (dayEvents p d events)),
                     overflow = (if 2 < length (dayEvents p d events)
                                 then Some (length (dayEvents p d events) - 2) else None)\<rparr>)"
    if "\<forall>e \<in> set (dayEvents p d events). name e \<noteq> None" for d
    using getEventsForDate_total [OF that]
    by (simp add: week_column_def thenE_def render_cell_def length_stable_sort)
  then show "renderWeekView p events currentDate
           = Inr (map (\<lambda>i. (addDays (startOfWeek currentDate) i,
                    \<lparr>tiles = take 2 (stable_sort (by_name p)
                                      (dayEvents p (addDays (startOfWeek currentDate) i) events)),
                     overflow =
                       (if 2 < length (dayEvents p (addDays (startOfWeek currentDate) i) events)
                        then Some (length (dayEvents p (addDays (startOfWeek currentDate) i) events) - 2)
                        else None)\<rparr>))
                  [0, 1, 2, 3, 4, 5, 6])"
    unfolding renderWeekView_def using assms(3) by (intro mapE_total) blast
next
  show "weekday (fst (startOfWeek currentDate)) = 0"
    using assms(2) by (rule startOfWeek_sunday)
next
  show "fst (addDays (startOfWeek currentDate) (weekday (fst currentDate))) = fst currentDate"
    using assms(2) by (rule startOfWeek_covers)
qed

text \<open>The list of a day is in the order of the names, and, where the collation ranks two
  names as it ranks their lower-cased forms or makes them equal, in the order of the
  lower-cased names: the order by case-insensitive name.\<close>

lemma week_day_sorted:
  assumes "consistent (localeCompare p)"
  shows "sorted_wrt (\<lambda>a b. by_name p a b \<le> 0) (stable_sort (by_name p) (dayEvents p d events))"
proof -
  have "consistent (by_name p)"
    unfolding by_name_def using assms by (rule consistent_on)
  then show ?thesis by (rule sorted_stable_sort)
qed

lemma week_day_case_insensitive:
  assumes "consistent (localeCompare p)"
      and "\<And>a b. localeCompare p a b \<le> 0 \<Longrightarrow> localeCompare p (lowerCase p a) (lowerCase p b) \<le> 0"
      and "\<forall>e \<in> set (dayEvents p d events). name e \<noteq> None"
  shows "sorted_wrt (\<lambda>a b. by_name_ci p a b \<le> 0)
           (stable_sort (by_name p) (dayEvents p d events))"
proof (rule sorted_wrt_mono_rel [OF _ week_day_sorted [OF assms(1)]])
  fix a b
  assume "a \<in> set (stable_sort (by_name p) (dayEvents p d events))"
     and "b \<in> set (stable_sort (by_name p) (dayEvents p d events))"
     and le: "by_name p a b \<le> 0"
  then have "name a \<noteq> None" "name b \<noteq> None"
    using assms(3) by (simp_all add: set_stable_sort)
  then obtain x y where "name a = Some x" "name b = Some y" by auto
  then show "by_name_ci p a b \<le> 0"
    using le assms(2) [of x y] by (simp add: by_name_def by_name_ci_def String_of_def or_empty_def)
qed

lemma toLowerCase_idem: "toLowerCase (toLowerCase s) = toLowerCase s"
proof -
  have "toLowerCase_char (toLowerCase_char c) = toLowerCase_char c" for c
    by (simp add: toLowerCase_char_def Let_def)
  then show ?thesis by (simp add: toLowerCase_def)
qed

lemma localeCompare_en_case_first:
  "localeCompare_en a b \<le> 0 \<Longrightarrow> localeCompare_en (toLowerCase a) (toLowerCase b) \<le> 0"
  by (auto simp: localeCompare_en_le toLowerCase_idem)

text \<open>The same two events in the other order are sorted: the sort passes the event
  with the name first, and the missing name is compared as the string \<open>null\<close>.\<close>

lemma week_column_null_name_first:
  "week_column en_platform
     [unnamed ''2'' ''2024-03-13'', named ''1'' ''Alpha'' ''2024-03-13''] ((2024, 3, 13), 0)
   = Inr (((2024, 3, 13), 0),
          \<lparr>tiles = [named ''1'' ''Alpha'' ''2024-03-13'', unnamed ''2'' ''2024-03-13''],
           overflow = None\<rparr>)"
  by code_simp

lemma renderWeekView_example:
  "renderWeekView en_platform week_events ((2024, 3, 13), 36000000)
     = Inr [(((2024, 3, 10), 0), \<lparr>tiles = [named ''4'' ''Zeta'' ''2024-03-10''], overflow = None\<rparr>),
            (((2024, 3, 11), 0), \<lparr>tiles = [], overflow = None\<rparr>),
            (((2024, 3, 12), 0), \<lparr>tiles = [], overflow = None\<rparr>),
            (((2024, 3, 13), 0),
             \<lparr>tiles = [named ''2'' ''alpha'' ''2024-03-13'', named ''1'' ''Alpha'' ''2024-03-13''],
              overflow = Some 1\<rparr>),
            (((2024, 3, 14), 0), \<lparr>tiles = [], overflow = None\<rparr>),
            (((2024, 3, 15), 0), \<lparr>tiles = [], overflow = None\<rparr>),
            (((2024, 3, 16), 0), \<lparr>tiles = [], overflow = None\<rparr>)]"
  by code_simp

section \<open>Date display\<close>









text \<open>A string that is no date of the calendar comes back as it is, and the parser of the
  examples, like the library, also reads a date without its dashes.\<close>

lemma formatEventDateDisplay_examples:
  "formatEventDateDisplay en_platform ''2024-02-30'' None ''UTC'' = ''2024-02-30''"
  "formatEventDateDisplay en_platform ''soon'' (Some ''2024-03-15'') ''UTC'' = ''soon''"
  "formatEventDateDisplay en_platform ''2024-03-15'' (Some ''soon'') ''UTC'' = ''2024-03-15''"
  "formatEventDateDisplay en_platform ''20240315'' None ''UTC'' = ''Friday, Mar 15, 2024''"
  by code_simp+

lemma sample_parseISO_examples:
  "sample_parseISO ''2024-03-15T00:00:00'' = Some ((2024, 3, 15), 0)"
  "sample_parseISO ''20240315'' = Some ((2024, 3, 15), 0)"
  "sample_parseISO ''2024-03'' = Some ((2024, 3, 1), 0)"
  "sample_parseISO ''2024-03-15T10:30'' = Some ((2024, 3, 15), 37800000)"
  "sample_parseISO ''2024-03-15T24:00:00'' = Some ((2024, 3, 16), 0)"
  "sample_parseISO ''2024-060'' = Some ((2024, 2, 29), 0)"
  "sample_parseISO ''2024-02-30'' = None"
  "sample_parseISO ''10:30'' = None"
  "sample_parseISO ''2024-03-15T00:00:00T00:00:00'' = None"
  by code_simp+

section \<open>Export\<close>

lemma msPerDay_pos: "0 < msPerDay"
  by (simp add: msPerDay_def)

lemma shift_days_simps:
  "shift_days 0 c = c" "shift_days 1 c = next_day c" "shift_days (- 1) c = prev_day c"
  by (simp_all add: shift_days_def)

lemma add_ms_same_day:
  assumes "0 \<le> t + k" "t + k < msPerDay"
  shows "add_ms (c, t) k = (c, t + k)"
proof -
  have "(t + k) div msPerDay = 0" "(t + k) mod msPerDay = t + k"
    using assms by simp_all
  then show ?thesis by (simp add: add_ms_def shift_days_simps)
qed

lemma add_ms_prev_day:
  assumes "- msPerDay \<le> t + k" "t + k < 0"
  shows "add_ms (c, t) k = (prev_day c, t + k + msPerDay)"
proof -
  have e: "t + k = msPerDay * (- 1) + (t + k + msPerDay)" by simp
  have "(t + k) div msPerDay = - 1"
    using assms by (intro int_div_pos_eq [OF e]) auto
  moreover have "(t + k) mod msPerDay = t + k + msPerDay"
    using assms by (intro int_mod_pos_eq [OF e]) auto
  ultimately show ?thesis by (simp add: add_ms_def shift_days_simps)
qed

lemma add_ms_next_day:
  assumes "msPerDay \<le> t + k" "t + k < 2 * msPerDay"
  shows "add_ms (c, t) k = (next_day c, t + k - msPerDay)"
proof -
  have e: "t + k = msPerDay * 1 + (t + k - msPerDay)" by simp
  have "(t + k) div msPerDay = 1"
    using assms by (intro int_div_pos_eq [OF e]) auto
  moreover have "(t + k) mod msPerDay = t + k - msPerDay"
    using assms by (intro int_mod_pos_eq [OF e]) auto
  ultimately show ?thesis by (simp add: add_ms_def shift_days_simps)
qed

lemma funpow_from_first:
  "0 \<le> k \<Longrightarrow> 1 + k \<le> days_in_month y m \<Longrightarrow> (next_day ^^ nat k) (y, m, 1) = (y, m, 1 + k)"
proof (induction "nat k" arbitrary: k)
  case 0
  then show ?case by simp
next
  case (Suc n)
  then have n: "n = nat (k - 1)" "0 \<le> k - 1" "1 + (k - 1) \<le> days_in_month y m" by linarith+
  have "nat k = Suc (nat (k - 1))" using Suc by linarith
  then have "(next_day ^^ nat k) (y, m, 1) = next_day ((next_day ^^ nat (k - 1)) (y, m, 1))"
    by simp
  also have "\<dots> = next_day (y, m, 1 + (k - 1))"
    using Suc.hyps(1) [OF n] by simp
  also have "\<dots> = (y, m, 1 + k)"
    using Suc.prems by (simp add: next_day_def)
  finally show ?case .
qed

lemma MakeDay_next: "valid_civil (y, m, d) \<Longrightarrow> MakeDay y m (d + 1) = next_day (y, m, d)"
proof -
  assume v: "valid_civil (y, m, d)"
  then have b: "1 \<le> d" "d \<le> days_in_month y m" by (auto simp: valid_civil_def)
  have "nat d = Suc (nat (d - 1))" using b by linarith
  then have "(next_day ^^ nat d) (y, m, 1) = next_day ((next_day ^^ nat (d - 1)) (y, m, 1))"
    by simp
  also have "\<dots> = next_day (y, m, 1 + (d - 1))"
    using funpow_from_first [of "d - 1" y m] b by simp
  finally show ?thesis using b by (simp add: MakeDay_def shift_days_def)
qed

lemma parse_date_valid: "parse_date s = Some c \<Longrightarrow> valid_civil c"
  by (auto simp: parse_date_def split: if_splits option.splits)

lemma setDate_next_fixed_offset:
  assumes off: "\<forall>t u. localTZA p t u = off" "- msPerDay < off" "off < msPerDay"
      and v: "valid_civil c"
  shows "setDate_next p (Some (c, 0)) = Some (next_day c, 0)"
proof (cases "0 \<le> off")
  case True
  have tz: "\<And>t u. localTZA p t u = off" using off(1) by blast
  obtain y m d where c: "c = (y, m, d)" by (cases c) auto
  have l: "LocalTime p (c, 0) = (c, off)"
    using off(2,3) True add_ms_same_day [of 0 off c] by (simp add: LocalTime_def tz)
  have "UTC p (next_day c, off) = (next_day c, 0)"
    using off(2,3) True add_ms_same_day [of off "- off" "next_day c"] msPerDay_pos
    by (simp add: UTC_def tz)
  then show ?thesis
    using l v MakeDay_next [of y m d] by (simp add: setDate_next_def c)
next
  case False
  have tz: "\<And>t u. localTZA p t u = off" using off(1) by blast
  obtain y m d where pc: "prev_day c = (y, m, d)" by (cases "prev_day c") auto
  have l: "LocalTime p (c, 0) = (prev_day c, off + msPerDay)"
    using off(2,3) False add_ms_prev_day [of 0 off c] by (simp add: LocalTime_def tz)
  have "MakeDay y m (d + 1) = next_day (prev_day c)"
    using MakeDay_next [of y m d] valid_prev_day [OF v] by (simp add: pc)
  then have mk: "MakeDay y m (d + 1) = c" using v by (simp add: next_prev_day)
  have "UTC p (c, off + msPerDay) = (next_day c, 0)"
    using off(2,3) False add_ms_next_day [of "off + msPerDay" "- off" c] msPerDay_pos
    by (simp add: UTC_def tz)
  then show ?thesis
    using l mk by (simp add: setDate_next_def pc)
qed

lemma local_triple_fixed_offset:
  assumes off: "\<forall>t u. localTZA p t u = off" "- msPerDay < off" "off < msPerDay"
  shows "local_triple p (Some (c, 0)) = Some (if off < 0 then prev_day c else c)"
proof -
  have tz: "\<And>t u. localTZA p t u = off" using off(1) by blast
  show ?thesis
  proof (cases "0 \<le> off")
    case True
    then show ?thesis
      using off(2,3) add_ms_same_day [of 0 off c] by (simp add: local_triple_def LocalTime_def tz)
  next
    case False
    then show ?thesis
      using off(2,3) add_ms_prev_day [of 0 off c] by (simp add: local_triple_def LocalTime_def tz)
  qed
qed

lemma generateGoogleCalendarUrl_catches:
  "generateGoogleCalendarUrl_try p ev = Inl err \<Longrightarrow> generateGoogleCalendarUrl p ev = ''#''"
  by (simp add: generateGoogleCalendarUrl_def)

lemma generateGoogleCalendarUrl_failures:
  "generateGoogleCalendarUrl en_platform
     ((spanning ''1'' ''Spring Cup'' ''2024-03-15'' ''2024-03-15'')\<lparr>start_date := None\<rparr>) = ''#''"
  "generateGoogleCalendarUrl en_platform (spanning ''1'' ''Spring Cup'' ''2024-03-15'' ''soon'') = ''#''"
  by code_simp+

lemma generateGoogleCalendarUrl_example:
  "link_dates en_platform (spanning ''1'' ''Spring Cup'' ''2024-03-15'' ''2024-03-15'')
     = Inr (''20240315'', ''20240316'')"
  "link_dates new_york_2024 (spanning ''1'' ''Spring Cup'' ''2024-03-15'' ''2024-03-15'')
     = Inr (''20240315'', ''20240316'')"
  "generateGoogleCalendarUrl en_platform (spanning ''1'' ''Spring Cup'' ''2024-03-15'' ''2024-03-15'')
     = ''https://calendar.google.com/calendar/render?action=TEMPLATE&text=Spring+Cup''
       @ ''&dates=20240315%2F20240316''
       @ ''&details=Sport%3A+N%2FA%5CnAge+Group%3A+N%2FA%5CnGender%3A+N%2FA%5CnEvent+Type%3A+N%2FA''
       @ ''&location=&sprop=website%3Ayouth-sports-calendar''"
  by code_simp+

text \<open>
  C6. The end of the link is not always the day after the stored end date. The function
  reads the end date as midnight UTC, moves it with \<open>setDate\<close>, which keeps the local time
  of day, and prints it with \<open>toISOString\<close>, in UTC again. On a clock that goes forward an
  hour that day the result is 23:00 UTC of the stored end date itself: for an event of
  10 March 2024 seen in New York, the \<open>dates\<close> parameter is \<open>20240310/20240310\<close>.
  (On a clock at a constant offset the end is the next day, \<open>setDate_next_fixed_offset\<close>;
  the example of 15 March holds, \<open>generateGoogleCalendarUrl_example\<close>; and every failure
  inside gives \<open>#\<close>, \<open>generateGoogleCalendarUrl_catches\<close>.)
\<close>

theorem generateGoogleCalendarUrl_end_on_clock_change:
  "link_dates new_york_2024 (spanning ''1'' ''Spring Cup'' ''2024-03-10'' ''2024-03-10'')
     = Inr (''20240310'', ''20240310'')
   \<and> toISOString (setDate_next new_york_2024 (new_Date new_york_2024 (Some ''2024-03-10'')))
     = Inr ''2024-03-10T23:00:00.000Z''
   \<and> generateGoogleCalendarUrl new_york_2024 (spanning ''1'' ''Spring Cup'' ''2024-03-10'' ''2024-03-10'')
     = ''https://calendar.google.com/calendar/render?action=TEMPLATE&text=Spring+Cup''
       @ ''&dates=20240310%2F20240310''
       @ ''&details=Sport%3A+N%2FA%5CnAge+Group%3A+N%2FA%5CnGender%3A+N%2FA%5CnEvent+Type%3A+N%2FA''
       @ ''&location=&sprop=website%3Ayouth-sports-calendar''"
  by code_simp

text \<open>On a host at a constant offset from UTC of less than a day, the date triples of
  the calendar file are the day before the start date and the end date itself when the
  host is behind UTC, and the start date and the day after the end date otherwise.\<close>

lemma icsEvent_dates_fixed_offset:
  assumes off: "\<forall>t u. localTZA p t u = off" "- msPerDay < off" "off < msPerDay"
      and s: "start_date ev = Some s" "parse_date s = Some cs"
      and e: "end_date ev = Some e" "parse_date e = Some ce"
  shows "(off < 0 \<longrightarrow> ics_start (icsEvent p ev) = Some (prev_day cs)
                     \<and> ics_end (icsEvent p ev) = Some ce)
       \<and> (0 \<le> off \<longrightarrow> ics_start (icsEvent p ev) = Some cs
                     \<and> ics_end (icsEvent p ev) = Some (next_day ce))"
proof -
  have vs: "valid_civil cs" and ve: "valid_civil ce"
    using s e by (auto dest: parse_date_valid)
  have st: "ics_start (icsEvent p ev) = Some (if off < 0 then prev_day cs else cs)"
    using s local_triple_fixed_offset [OF off, of cs] by (simp add: icsEvent_def new_Date_def)
  have "ics_end (icsEvent p ev) = local_triple p (Some (next_day ce, 0))"
    using e setDate_next_fixed_offset [OF off ve] by (simp add: icsEvent_def new_Date_def)
  then have en: "ics_end (icsEvent p ev) = Some (if off < 0 then prev_day (next_day ce) else next_day ce)"
    using local_triple_fixed_offset [OF off, of "next_day ce"] by simp
  show ?thesis using st en ve by (simp add: prev_next_day)
qed

lemma icsEvent_dates_fixed_offset_examples:
  "ics_start (icsEvent (fixed_offset_platform (- 28800000))
                (spanning ''1'' ''Spring Cup'' ''2024-03-01'' ''2024-03-02'')) = Some (2024, 2, 29)
   \<and> ics_end (icsEvent (fixed_offset_platform (- 28800000))
                (spanning ''1'' ''Spring Cup'' ''2024-03-01'' ''2024-03-02'')) = Some (2024, 3, 2)
   \<and> ics_start (icsEvent (fixed_offset_platform 3600000)
                (spanning ''1'' ''Spring Cup'' ''2024-03-01'' ''2024-03-02'')) = Some (2024, 3, 1)
   \<and> ics_end (icsEvent (fixed_offset_platform 3600000)
                (spanning ''1'' ''Spring Cup'' ''2024-03-01'' ''2024-03-02'')) = Some (2024, 3, 3)"
proof -
  let ?ev = "spanning ''1'' ''Spring Cup'' ''2024-03-01'' ''2024-03-02''"
  have o: "\<forall>t u. localTZA (fixed_offset_platform off) t u = off" for off
    by (simp add: fixed_offset_platform_def)
  have b: "- msPerDay < - 28800000" "- 28800000 < msPerDay" "- msPerDay < 3600000"
    "3600000 < msPerDay"
    by (simp_all add: msPerDay_def)
  have s: "start_date ?ev = Some ''2024-03-01''" "end_date ?ev = Some ''2024-03-02''"
    by (simp_all add: spanning_def named_def)
  have p: "parse_date ''2024-03-01'' = Some (2024, 3, 1)" "parse_date ''2024-03-02'' = Some (2024, 3, 2)"
    by code_simp+
  have d: "prev_day (2024, 3, 1) = (2024, 2, 29)" "next_day (2024, 3, 2) = (2024, 3, 3)"
    by code_simp+
  show ?thesis
    using icsEvent_dates_fixed_offset [OF o b(1,2) s(1) p(1) s(2) p(2)]
          icsEvent_dates_fixed_offset [OF o b(3,4) s(1) p(1) s(2) p(2)]
    by (simp add: d)
qed

lemma local_triple_behind:
  assumes "- msPerDay < localTZA p (c, 0) True" "localTZA p (c, 0) True < 0"
  shows "LocalTime p (c, 0) = (prev_day c, msPerDay + localTZA p (c, 0) True)"
  using assms add_ms_prev_day [of 0 "localTZA p (c, 0) True" c]
  by (simp add: LocalTime_def add.commute)

text \<open>
  C10, as it is stated, fails: a host that is behind UTC at the midnights UTC of the two
  dates can still give an end triple that is not the stored end date. The clock of Apia
  skipped 30 December 2011. For an event from 29 to 30 December 2011 the host is ten hours
  behind UTC at both midnights; \<open>setDate\<close> moves the afternoon of the 29th to the
  afternoon of the 30th, which that clock never showed, and the date that comes of it is
  the afternoon of the 31st: the end triple is the day after the stored end date.
\<close>

theorem icsEvent_dates_apia_counterexample:
  "ics_start (icsEvent apia_2011 (spanning ''1'' ''Cup'' ''2011-12-29'' ''2011-12-30''))
     = Some (2011, 12, 28)
   \<and> ics_end (icsEvent apia_2011 (spanning ''1'' ''Cup'' ''2011-12-29'' ''2011-12-30''))
     = Some (2011, 12, 31)
   \<and> localTZA apia_2011 ((2011, 12, 29), 0) True = - 36000000
   \<and> localTZA apia_2011 ((2011, 12, 30), 0) True = - 36000000"
  by code_simp

text \<open>
  C10, amended. The calendar file of one event takes its date triples from the local
  accessors of dates that were parsed as midnight UTC, so they follow the clock of the
  host. For an event whose two dates are complete ISO dates, on a host that is behind UTC
  (by less than a day) at the midnights UTC of the two dates, and whose clock shows the
  local time of day of that midnight on the end date (no clock change skips it), the
  start triple is the day before the stored start date, and the end triple is the stored
  end date itself, not the day after: \<open>setDate\<close> moves the evening before the end date
  to the evening of the end date.
\<close>

theorem icsEvent_dates_behind_utc:
  assumes s: "start_date ev = Some s" "parse_date s = Some cs"
      and e: "end_date ev = Some e" "parse_date e = Some ce"
      and os: "- msPerDay < localTZA p (cs, 0) True" "localTZA p (cs, 0) True < 0"
      and oe: "- msPerDay < localTZA p (ce, 0) True" "localTZA p (ce, 0) True < 0"
      and once: "LocalTime p (UTC p (ce, msPerDay + localTZA p (ce, 0) True))
                   = (ce, msPerDay + localTZA p (ce, 0) True)"
  shows "ics_start (icsEvent p ev) = Some (prev_day cs) \<and> ics_end (icsEvent p ev) = Some ce"
proof
  show "ics_start (icsEvent p ev) = Some (prev_day cs)"
    using s local_triple_behind [OF os]
    by (simp add: icsEvent_def new_Date_def local_triple_def)
next
  have ve: "valid_civil ce" using e by (auto dest: parse_date_valid)
  obtain y m d where pc: "prev_day ce = (y, m, d)" by (cases "prev_day ce") auto
  have "MakeDay y m (d + 1) = next_day (prev_day ce)"
    using MakeDay_next [of y m d] valid_prev_day [OF ve] by (simp add: pc)
  then have mk: "MakeDay y m (d + 1) = ce" using ve by (simp add: next_prev_day)
  have "setDate_next p (Some (ce, 0)) = Some (UTC p (ce, msPerDay + localTZA p (ce, 0) True))"
    using local_triple_behind [OF oe] mk by (simp add: setDate_next_def pc)
  then show "ics_end (icsEvent p ev) = Some ce"
    using e once by (simp add: icsEvent_def new_Date_def local_triple_def)
qed

theorem icsEvent_dates_behind_utc_witness:
  "ics_start (icsEvent new_york_2024 (spanning ''1'' ''Spring Cup'' ''2024-03-01'' ''2024-03-10''))
     = Some (2024, 2, 29)
   \<and> ics_end (icsEvent new_york_2024 (spanning ''1'' ''Spring Cup'' ''2024-03-01'' ''2024-03-10''))
     = Some (2024, 3, 10)"
proof -
  let ?ev = "spanning ''1'' ''Spring Cup'' ''2024-03-01'' ''2024-03-10''"
  have s: "start_date ?ev = Some ''2024-03-01''" "end_date ?ev = Some ''2024-03-10''"
    by (simp_all add: spanning_def named_def)
  have p: "parse_date ''2024-03-01'' = Some (2024, 3, 1)" "parse_date ''2024-03-10'' = Some (2024, 3, 10)"
    by code_simp+
  have o: "localTZA new_york_2024 ((2024, 3, 1), 0) True = - 18000000"
    "localTZA new_york_2024 ((2024, 3, 10), 0) True = - 18000000"
    by code_simp+
  have b: "- msPerDay < - 18000000" "(- 18000000 :: int) < 0"
    by (simp_all add: msPerDay_def)
  have r: "LocalTime new_york_2024 (UTC new_york_2024 ((2024, 3, 10), msPerDay + - 18000000))
             = ((2024, 3, 10), msPerDay + - 18000000)"
    by code_simp
  have d: "prev_day (2024, 3, 1) = (2024, 2, 29)"
    by code_simp
  show ?thesis
    using icsEvent_dates_behind_utc [of ?ev _ "(2024, 3, 1)" _ "(2024, 3, 10)" new_york_2024,
            OF s(1) p(1) s(2) p(2)] o b r
    by (simp add: d)
qed

lemma icsEvent_new_york_examples:
  "ics_start (icsEvent new_york_2024 (spanning ''1'' ''Spring Cup'' ''2024-03-15'' ''2024-03-15''))
     = Some (2024, 3, 14)"
  "ics_end (icsEvent new_york_2024 (spanning ''1'' ''Spring Cup'' ''2024-03-15'' ''2024-03-15''))
     = Some (2024, 3, 15)"
  "ics_start (icsEvent new_york_2024 (spanning ''1'' ''Spring Cup'' ''2024-03-10'' ''2024-03-10''))
     = Some (2024, 3, 9)"
  "ics_end (icsEvent new_york_2024 (spanning ''1'' ''Spring Cup'' ''2024-03-10'' ''2024-03-10''))
     = Some (2024, 3, 10)"
  by code_simp+

section \<open>Bulk export\<close>


lemma add_event_vevent_of:
  "add_event p (content, n) event =
     (case vevent_of p event of
        None \<Rightarrow> (content, n)
      | Some b \<Rightarrow> (content @ b @ newline, n + 1))"
  by (simp add: add_event_def vevent_of_def Let_def split: option.splits)

lemma foldl_add_event:
  "foldl (add_event p) (content, n) events
     = (content @ concat (map (\<lambda>b. b @ newline) (List.map_filter (vevent_of p) events)),
        n + length (List.map_filter (vevent_of p) events))"
proof (induction events arbitrary: content n)
  case Nil
  then show ?case by (simp add: List.map_filter_simps)
next
  case (Cons e es)
  show ?case
  proof (cases "vevent_of p e")
    case None
    then show ?thesis
      using Cons [of content n] by (simp add: add_event_vevent_of List.map_filter_simps)
  next
    case (Some b)
    then show ?thesis
      using Cons [of "content @ b @ newline" "n + 1"]
      by (simp add: add_event_vevent_of List.map_filter_simps)
  qed
qed






text \<open>The serializer of the examples refuses every object that \<open>generateICSContent\<close>
  builds, for its key \<open>allDay\<close>, so on that platform the bulk export of any rows ends in
  the message; it writes an object without the key.\<close>

lemma generateICSContent_en_platform:
  "generateICSContent en_platform ev
     = \<lparr>ics_error = Some ''ValidationError'', ics_value = None\<rparr>"
  by (simp add: generateICSContent_def en_platform_def icsEvent_def sample_createEvent_def)

lemma downloadMultipleEventsICS_en_platform:
  "shown (downloadMultipleEventsICS en_platform events)
     = Alert ''Could not generate the .ics file. No valid events found.''"
proof -
  have "vevent_of en_platform ev = None" for ev
    by (simp add: vevent_of_def generateICSContent_en_platform or_empty_def)
  then have "List.map_filter (vevent_of en_platform) events = []"
    by (induction events) (simp_all add: List.map_filter_simps)
  then show ?thesis
    by (simp add: downloadMultipleEventsICS_def export_loop_def foldl_add_event)
qed

lemma sample_createEvent_example:
  "sample_createEvent
     ((icsEvent en_platform (spanning ''1'' ''Spring Cup'' ''2024-03-15'' ''2024-03-16''))
        \<lparr>ics_allDay := None\<rparr>)
   = \<lparr>ics_error = None,
      ics_value = Some (''BEGIN:VCALENDAR'' @ crlf @ ''VERSION:2.0'' @ crlf
                        @ ''BEGIN:VEVENT'' @ crlf @ ''UID:1'' @ crlf
                        @ ''SUMMARY:Spring Cup'' @ crlf
                        @ ''DTSTART;VALUE=DATE:20240315'' @ crlf
                        @ ''DTEND;VALUE=DATE:20240317'' @ crlf
                        @ ''STATUS:CONFIRMED'' @ crlf
                        @ ''END:VEVENT'' @ crlf @ ''END:VCALENDAR'' @ crlf)\<rparr>"
  by code_simp

end
